theory Spec2Isabelle
  imports Main "HOL-Library.Word" "HOL-Library.Sublist"
begin

section \<open>Inugami shader wrapper (src/inugami/shader.cpp)\<close>

text \<open>
  The file wraps the OpenGL shader API: the constructor of \<open>Shader\<close> compiles up to five
  stage sources, links them into a program and reads the table of active uniforms;
  \<open>bind\<close>, \<open>isBound\<close> and \<open>uniform\<close> work on the finished object.

  The model is that of the build with shaders enabled (\<open>INU_NO_SHADERS\<close> undefined);
  the other branch of the file replaces every function by a stub.

  The OpenGL driver is an external collaborator. It is modelled as a record of response
  functions, each of which may depend on the whole history of calls made so far, so the
  theorems hold for every deterministic driver. Every call the code makes is appended to
  the history together with the value the driver returned.
\<close>

subsection \<open>OpenGL types and constants\<close>

text \<open>The integer types and the enumerants are those of the OpenGL headers.\<close>

type_synonym GLuint = "32 word"
type_synonym GLenum = "32 word"
type_synonym GLint = "32 word" \<comment> \<open>signed, read with \<open>sint\<close>\<close>
type_synonym GLsizei = "32 word" \<comment> \<open>signed, read with \<open>sint\<close>\<close>
type_synonym GLchar = char
type_synonym thread = nat

definition GL_FALSE :: GLint where "GL_FALSE = 0"
definition GL_FRAGMENT_SHADER :: GLenum where "GL_FRAGMENT_SHADER = 0x8B30"
definition GL_VERTEX_SHADER :: GLenum where "GL_VERTEX_SHADER = 0x8B31"
definition GL_GEOMETRY_SHADER :: GLenum where "GL_GEOMETRY_SHADER = 0x8DD9"
definition GL_TESS_EVALUATION_SHADER :: GLenum where "GL_TESS_EVALUATION_SHADER = 0x8E87"
definition GL_TESS_CONTROL_SHADER :: GLenum where "GL_TESS_CONTROL_SHADER = 0x8E88"
definition GL_COMPILE_STATUS :: GLenum where "GL_COMPILE_STATUS = 0x8B81"
definition GL_LINK_STATUS :: GLenum where "GL_LINK_STATUS = 0x8B82"
definition GL_INFO_LOG_LENGTH :: GLenum where "GL_INFO_LOG_LENGTH = 0x8B84"
definition GL_ACTIVE_UNIFORMS :: GLenum where "GL_ACTIVE_UNIFORMS = 0x8B86"
definition GL_ACTIVE_UNIFORM_MAX_LENGTH :: GLenum where "GL_ACTIVE_UNIFORM_MAX_LENGTH = 0x8B87"

definition NUL :: GLchar where "NUL = CHR 0x00"
definition newline :: GLchar where "newline = CHR 0x0A"

subsection \<open>The call history and the driver\<close>

text \<open>One constructor per OpenGL entry point the file calls; a query carries its answer last.\<close>

datatype gl_call =
    CreateProgram GLuint
  | DeleteProgram GLuint
  | CreateShader GLenum GLuint
  | ShaderSource GLuint string
  | CompileShader GLuint
  | GetShaderiv GLuint GLenum GLint
  | GetShaderInfoLog GLuint GLsizei "GLchar list"
  | AttachShader GLuint GLuint
  | LinkProgram GLuint
  | GetProgramiv GLuint GLenum GLint
  | GetProgramInfoLog GLuint GLsizei "GLchar list"
  | DetachShader GLuint GLuint
  | DeleteShader GLuint
  | UseProgram GLuint
  | GetActiveUniform GLuint GLuint GLsizei "GLchar list \<times> GLint \<times> GLenum"
  | GetUniformLocation GLuint string GLint

record driver =
  gen_program :: "gl_call list \<Rightarrow> GLuint"
  gen_shader :: "gl_call list \<Rightarrow> GLenum \<Rightarrow> GLuint"
  shader_param :: "gl_call list \<Rightarrow> GLuint \<Rightarrow> GLenum \<Rightarrow> GLint"
  shader_log :: "gl_call list \<Rightarrow> GLuint \<Rightarrow> string"
  program_param :: "gl_call list \<Rightarrow> GLuint \<Rightarrow> GLenum \<Rightarrow> GLint"
  program_log :: "gl_call list \<Rightarrow> GLuint \<Rightarrow> string"
  active_uniform :: "gl_call list \<Rightarrow> GLuint \<Rightarrow> GLuint \<Rightarrow> GLsizei \<Rightarrow> string \<times> GLint \<times> GLenum"
  uniform_location :: "gl_call list \<Rightarrow> GLuint \<Rightarrow> string \<Rightarrow> GLint"

text \<open>
  The state the file works on: the history of OpenGL calls, and the static
  \<open>thread_local GLuint Shader::boundProgram\<close>, one slot per thread.
\<close>

record world =
  calls :: "gl_call list"
  boundProgram :: "thread \<Rightarrow> GLuint"

definition initial_world :: world where
  "initial_world = \<lparr>calls = [], boundProgram = (\<lambda>t. 0)\<rparr>"

definition emit :: "gl_call \<Rightarrow> world \<Rightarrow> world" where
  "emit c w = w\<lparr>calls := calls w @ [c]\<rparr>"

definition events_since :: "world \<Rightarrow> world \<Rightarrow> gl_call list" where
  "events_since w w' = drop (length (calls w)) (calls w')"

subsection \<open>Data of shader.hpp used by the file\<close>

text \<open>
  Modelled from the spec: the headers \<open>shader.hpp\<close> and \<open>shaderprogram.hpp\<close>, which
  declare \<open>UniformData\<close>, \<open>Shader::Shared\<close>, \<open>Shader\<close>, \<open>Shader::Uniform\<close> and
  \<open>ShaderProgram\<close>, are not among the sources. The records below have the members that
  \<open>shader.cpp\<close> reads and writes, with the types of the spec's data model: a uniform
  entry with array size, type tag and location; a shared program with the program name
  and the table from names to entries; a shader holding the shared program; a uniform
  reference with a back pointer and an entry pointer; a source set with five text slots.
  The \<open>shared_ptr\<close> of \<open>Shader\<close> is modelled by its pointee: no claim depends on two
  handles sharing one program.
\<close>

record UniformData =
  size :: GLint
  type :: GLenum
  location :: GLint

record Shared =
  program :: GLuint
  uniforms :: "string \<rightharpoonup> UniformData"

record Shader =
  share :: Shared

text \<open>\<open>Shader::Uniform\<close>: two pointers, \<open>None\<close> for \<open>nullptr\<close>.\<close>

record Uniform =
  shader :: "Shader option"
  data :: "UniformData option"

text \<open>\<open>ShaderProgram::sources\<close>, indexed 0..4 by the constructor.\<close>

record ShaderProgram =
  sources :: "nat \<Rightarrow> string"

subsection \<open>Binding\<close>

definition glUseProgram :: "GLuint \<Rightarrow> world \<Rightarrow> world" where
  "glUseProgram p w = emit (UseProgram p) w"

definition isBound :: "thread \<Rightarrow> Shader \<Rightarrow> world \<Rightarrow> bool" where
  "isBound t this w = (boundProgram w t = program (share this))"

definition bind :: "thread \<Rightarrow> Shader \<Rightarrow> world \<Rightarrow> world" where
  "bind t this w =
     (if isBound t this w then w
      else (let w1 = glUseProgram (program (share this)) w
            in w1\<lparr>boundProgram := (boundProgram w1)(t := program (share this))\<rparr>))"

subsection \<open>Uniform lookup\<close>

definition Uniform_ctor :: "Shader option \<Rightarrow> UniformData option \<Rightarrow> Uniform" where
  "Uniform_ctor s u = \<lparr>shader = s, data = u\<rparr>"

definition uniform :: "Shader \<Rightarrow> string \<Rightarrow> Uniform" where
  "uniform this name =
     (case uniforms (share this) name of
        None \<Rightarrow> Uniform_ctor (Some this) None
      | Some u \<Rightarrow> Uniform_ctor (Some this) (Some u))"

subsection \<open>Exceptions and other abnormal outcomes\<close>

text \<open>
  \<open>ShaderException::err\<close> is the message; the two constructors below build it as the
  string streams of the source do. \<open>AllocationFailure\<close> is the exception of
  \<open>std::vector<GLchar> log(len)\<close> for a negative \<open>len\<close>, which the conversion to
  \<open>size_t\<close> turns into a size no allocation can serve (\<open>std::length_error\<close> or
  \<open>std::bad_alloc\<close>, by library version), and of \<open>new GLchar[maxLength]\<close> for a
  negative \<open>maxLength\<close> (\<open>std::bad_array_new_length\<close>). \<open>BufferOverrun\<close> marks an
  access outside an allocated buffer, where the behaviour of the program is undefined.
\<close>

datatype abort =
    CompileError string
  | LinkError string
  | AllocationFailure
  | BufferOverrun

definition ShaderE_CompileError :: "string \<Rightarrow> string \<Rightarrow> abort" where
  "ShaderE_CompileError codeStr errStr =
     CompileError (''Shader compile error:'' @ [newline] @ errStr @
       (if codeStr \<noteq> [] then [newline] @ ''    -- SHADER CODE --'' @ [newline] @ codeStr
        else []))"

definition ShaderE_LinkError :: "string \<Rightarrow> abort" where
  "ShaderE_LinkError errStr = LinkError (''Shader link error:'' @ [newline] @ errStr)"

subsection \<open>Character buffers\<close>

text \<open>
  \<open>std::vector<GLchar> log(n)\<close> holds \<open>n\<close> zero characters. The driver stores characters
  from the first element on; \<open>&log[0]\<close> handed to a \<open>std::string\<close> parameter is read up
  to the first zero character. Either access is \<open>None\<close> when it leaves the buffer.
\<close>

definition vector_GLchar :: "nat \<Rightarrow> GLchar list" where
  "vector_GLchar n = replicate n NUL"

definition store_chars :: "GLchar list \<Rightarrow> GLchar list \<Rightarrow> GLchar list option" where
  "store_chars buf cs =
     (if length cs \<le> length buf then Some (cs @ drop (length cs) buf) else None)"

definition c_string :: "GLchar list \<Rightarrow> string option" where
  "c_string buf = (if NUL \<in> set buf then Some (takeWhile (\<lambda>c. c \<noteq> NUL) buf) else None)"

text \<open>
  What \<open>glGetShaderInfoLog\<close> and \<open>glGetProgramInfoLog\<close> store for a log text, by the
  OpenGL specification: at most \<open>bufSize\<close> characters, the terminating zero included.
\<close>

definition info_log_chars :: "GLsizei \<Rightarrow> string \<Rightarrow> GLchar list" where
  "info_log_chars bufSize text =
     (if sint bufSize \<le> 0 then [] else take (nat (sint bufSize) - 1) text @ [NUL])"

text \<open>
  \<open>new GLchar[n]\<close> holds \<open>n\<close> characters of indeterminate value, \<open>None\<close> until the
  driver has stored one. Reading the array as a C string ends at the first zero
  character; it is \<open>None\<close> when it meets an indeterminate character or leaves the array
  first.
\<close>

definition new_GLchar :: "nat \<Rightarrow> GLchar option list" where
  "new_GLchar n = replicate n None"

definition store_raw :: "GLchar option list \<Rightarrow> GLchar list \<Rightarrow> GLchar option list option" where
  "store_raw buf cs =
     (if length cs \<le> length buf then Some (map Some cs @ drop (length cs) buf) else None)"

fun c_string_raw :: "GLchar option list \<Rightarrow> string option" where
  "c_string_raw [] = None"
| "c_string_raw (None # rest) = None"
| "c_string_raw (Some c # rest) =
     (if c = NUL then Some [] else map_option ((#) c) (c_string_raw rest))"

text \<open>
  What \<open>glGetActiveUniform\<close> stores for a uniform name, by the OpenGL specification: at
  most \<open>bufSize\<close> characters, the terminating zero included, and nothing for a
  capacity of zero.
\<close>

definition name_chars :: "GLsizei \<Rightarrow> string \<Rightarrow> GLchar list" where
  "name_chars bufSize name =
     (if sint bufSize \<le> 0 then [] else take (nat (sint bufSize) - 1) name @ [NUL])"

subsection \<open>OpenGL entry points\<close>

definition glCreateProgram :: "driver \<Rightarrow> world \<Rightarrow> GLuint \<times> world" where
  "glCreateProgram drv w =
     (let p = gen_program drv (calls w) in (p, emit (CreateProgram p) w))"

definition glDeleteProgram :: "GLuint \<Rightarrow> world \<Rightarrow> world" where
  "glDeleteProgram p w = emit (DeleteProgram p) w"

definition glCreateShader :: "driver \<Rightarrow> GLenum \<Rightarrow> world \<Rightarrow> GLuint \<times> world" where
  "glCreateShader drv ty w =
     (let s = gen_shader drv (calls w) ty in (s, emit (CreateShader ty s) w))"

text \<open>The source is passed as a C string with no length: the driver reads up to the first zero.\<close>

definition glShaderSource :: "GLuint \<Rightarrow> string \<Rightarrow> world \<Rightarrow> world" where
  "glShaderSource s code w = emit (ShaderSource s (takeWhile (\<lambda>c. c \<noteq> NUL) code)) w"

definition glCompileShader :: "GLuint \<Rightarrow> world \<Rightarrow> world" where
  "glCompileShader s w = emit (CompileShader s) w"

definition glGetShaderiv :: "driver \<Rightarrow> GLuint \<Rightarrow> GLenum \<Rightarrow> world \<Rightarrow> GLint \<times> world" where
  "glGetShaderiv drv s pname w =
     (let r = shader_param drv (calls w) s pname in (r, emit (GetShaderiv s pname r) w))"

definition glGetShaderInfoLog :: "driver \<Rightarrow> GLuint \<Rightarrow> GLsizei \<Rightarrow> world \<Rightarrow> GLchar list \<times> world" where
  "glGetShaderInfoLog drv s bufSize w =
     (let cs = info_log_chars bufSize (shader_log drv (calls w) s)
      in (cs, emit (GetShaderInfoLog s bufSize cs) w))"

definition glAttachShader :: "GLuint \<Rightarrow> GLuint \<Rightarrow> world \<Rightarrow> world" where
  "glAttachShader p s w = emit (AttachShader p s) w"

definition glLinkProgram :: "GLuint \<Rightarrow> world \<Rightarrow> world" where
  "glLinkProgram p w = emit (LinkProgram p) w"

definition glGetProgramiv :: "driver \<Rightarrow> GLuint \<Rightarrow> GLenum \<Rightarrow> world \<Rightarrow> GLint \<times> world" where
  "glGetProgramiv drv p pname w =
     (let r = program_param drv (calls w) p pname in (r, emit (GetProgramiv p pname r) w))"

definition glGetProgramInfoLog :: "driver \<Rightarrow> GLuint \<Rightarrow> GLsizei \<Rightarrow> world \<Rightarrow> GLchar list \<times> world" where
  "glGetProgramInfoLog drv p bufSize w =
     (let cs = info_log_chars bufSize (program_log drv (calls w) p)
      in (cs, emit (GetProgramInfoLog p bufSize cs) w))"

definition glDetachShader :: "GLuint \<Rightarrow> GLuint \<Rightarrow> world \<Rightarrow> world" where
  "glDetachShader p s w = emit (DetachShader p s) w"

definition glDeleteShader :: "GLuint \<Rightarrow> world \<Rightarrow> world" where
  "glDeleteShader s w = emit (DeleteShader s) w"

text \<open>
  \<open>glGetActiveUniform\<close> answers with the characters it stores in the name buffer, the
  array size and the type tag; the driver function gives the uniform's name.
\<close>

definition glGetActiveUniform ::
  "driver \<Rightarrow> GLuint \<Rightarrow> GLuint \<Rightarrow> GLsizei \<Rightarrow> world
   \<Rightarrow> (GLchar list \<times> GLint \<times> GLenum) \<times> world" where
  "glGetActiveUniform drv p i bufSize w =
     (let (name, sz, ty) = active_uniform drv (calls w) p i bufSize;
          r = (name_chars bufSize name, sz, ty)
      in (r, emit (GetActiveUniform p i bufSize r) w))"

definition glGetUniformLocation :: "driver \<Rightarrow> GLuint \<Rightarrow> string \<Rightarrow> world \<Rightarrow> GLint \<times> world" where
  "glGetUniformLocation drv p name w =
     (let r = uniform_location drv (calls w) p name in (r, emit (GetUniformLocation p name r) w))"

subsection \<open>Shared\<close>

definition Shared_ctor :: "driver \<Rightarrow> world \<Rightarrow> Shared \<times> world" where
  "Shared_ctor drv w =
     (let (p, w1) = glCreateProgram drv w in (\<lparr>program = p, uniforms = Map.empty\<rparr>, w1))"

definition Shared_dtor :: "Shared \<Rightarrow> world \<Rightarrow> world" where
  "Shared_dtor sh w = glDeleteProgram (program sh) w"

subsection \<open>The constructor of Shader\<close>

text \<open>The \<open>compile\<close> lambda.\<close>

definition compile :: "driver \<Rightarrow> GLuint \<Rightarrow> string \<Rightarrow> world \<Rightarrow> (abort + unit) \<times> world" where
  "compile drv ident codeStr w =
     (let w1 = glShaderSource ident codeStr w;
          w2 = glCompileShader ident w1;
          (status, w3) = glGetShaderiv drv ident GL_COMPILE_STATUS w2
      in if status = GL_FALSE then
           (let (len, w4) = glGetShaderiv drv ident GL_INFO_LOG_LENGTH w3
            in if sint len < 0 then (Inl AllocationFailure, w4)
               else
                 (let log = vector_GLchar (nat (sint len));
                      (cs, w5) = glGetShaderInfoLog drv ident 1024 w4
                  in case store_chars log cs of
                       None \<Rightarrow> (Inl BufferOverrun, w5)
                     | Some log' \<Rightarrow>
                         (case c_string log' of
                            None \<Rightarrow> (Inl BufferOverrun, w5)
                          | Some errStr \<Rightarrow> (Inl (ShaderE_CompileError codeStr errStr), w5))))
         else (Inr (), w3))"

definition shaderTypes :: "GLenum list" where
  "shaderTypes =
     [GL_VERTEX_SHADER, GL_TESS_CONTROL_SHADER, GL_TESS_EVALUATION_SHADER,
      GL_GEOMETRY_SHADER, GL_FRAGMENT_SHADER]"

text \<open>The loop over the five stage slots; \<open>ids\<close> is the vector of created handles.\<close>

fun stage_loop ::
  "driver \<Rightarrow> ShaderProgram \<Rightarrow> nat list \<Rightarrow> GLuint list \<Rightarrow> world \<Rightarrow> (abort + GLuint list) \<times> world" where
  "stage_loop drv source [] ids w = (Inr ids, w)"
| "stage_loop drv source (i # rest) ids w =
     (if sources source i \<noteq> [] then
        (let (sh, w1) = glCreateShader drv (shaderTypes ! i) w;
             ids' = ids @ [sh]
         in case compile drv sh (sources source i) w1 of
              (Inl e, w2) \<Rightarrow> (Inl e, w2)
            | (Inr u, w2) \<Rightarrow> stage_loop drv source rest ids' w2)
      else stage_loop drv source rest ids w)"

text \<open>The block that runs when the link status is \<open>GL_FALSE\<close>.\<close>

definition link_failed :: "driver \<Rightarrow> GLuint \<Rightarrow> world \<Rightarrow> (abort + unit) \<times> world" where
  "link_failed drv p w =
     (let (len, w1) = glGetProgramiv drv p GL_INFO_LOG_LENGTH w
      in if 1 \<le> sint len then
           (let log = vector_GLchar (nat (sint len));
                (cs, w2) = glGetProgramInfoLog drv p len w1
            in case store_chars log cs of
                 None \<Rightarrow> (Inl BufferOverrun, w2)
               | Some log' \<Rightarrow>
                   (case c_string log' of
                      None \<Rightarrow> (Inl BufferOverrun, w2)
                    | Some errStr \<Rightarrow> (Inl (ShaderE_LinkError errStr), w2)))
         else (Inr (), w1))"

text \<open>The loop that detaches and deletes the handles in \<open>ids\<close>.\<close>

fun release_stages :: "GLuint \<Rightarrow> GLuint list \<Rightarrow> world \<Rightarrow> world" where
  "release_stages p [] w = w"
| "release_stages p (s # rest) w = release_stages p rest (glDeleteShader s (glDetachShader p s w))"

text \<open>
  \<open>initUniforms\<close> and its loop. \<open>name\<close> is the scratch array \<open>new GLchar[maxLength]\<close>:
  every round the driver stores the uniform's name there, and the code reads it back as
  a C string, for the location query and as the key of the table. \<open>tmpUniform\<close> is
  overwritten in full by every round.
\<close>

fun uniform_loop ::
  "driver \<Rightarrow> GLuint \<Rightarrow> GLint \<Rightarrow> nat list \<Rightarrow> GLchar option list \<Rightarrow> (string \<rightharpoonup> UniformData)
   \<Rightarrow> world \<Rightarrow> (abort + (string \<rightharpoonup> UniformData)) \<times> world" where
  "uniform_loop drv p maxLength [] name us w = (Inr us, w)"
| "uniform_loop drv p maxLength (i # rest) name us w =
     (let ((cs, sz, ty), w1) = glGetActiveUniform drv p (of_nat i) maxLength w
      in case store_raw name cs of
           None \<Rightarrow> (Inl BufferOverrun, w1)
         | Some name' \<Rightarrow>
             (case c_string_raw name' of
                None \<Rightarrow> (Inl BufferOverrun, w1)
              | Some nameStr \<Rightarrow>
                  (let (loc, w2) = glGetUniformLocation drv p nameStr w1;
                       tmpUniform = \<lparr>size = sz, type = ty, location = loc\<rparr>
                   in uniform_loop drv p maxLength rest name' (us(nameStr \<mapsto> tmpUniform)) w2)))"

definition initUniforms :: "driver \<Rightarrow> Shared \<Rightarrow> world \<Rightarrow> (abort + Shared) \<times> world" where
  "initUniforms drv sh w =
     (let (numUniforms, w1) = glGetProgramiv drv (program sh) GL_ACTIVE_UNIFORMS w;
          (maxLength, w2) = glGetProgramiv drv (program sh) GL_ACTIVE_UNIFORM_MAX_LENGTH w1
      in if sint maxLength < 0 then (Inl AllocationFailure, w2)
         else
           (let name = new_GLchar (nat (sint maxLength))
            in case uniform_loop drv (program sh) maxLength [0..<nat (sint numUniforms)]
                      name (uniforms sh) w2 of
                 (Inl e, w3) \<Rightarrow> (Inl e, w3)
               | (Inr us, w3) \<Rightarrow> (Inr (sh\<lparr>uniforms := us\<rparr>), w3)))"

text \<open>
  \<open>Shader::Shader(const ShaderProgram&)\<close>. An exception that leaves the constructor
  body destroys the member \<open>share\<close>, the only owner of the \<open>Shared\<close>, whose destructor
  deletes the program.
\<close>

definition Shader_ctor :: "driver \<Rightarrow> ShaderProgram \<Rightarrow> world \<Rightarrow> (abort + Shader) \<times> world" where
  "Shader_ctor drv source w =
     (let (sh, w1) = Shared_ctor drv w
      in case stage_loop drv source [0..<5] [] w1 of
           (Inl e, w2) \<Rightarrow> (Inl e, Shared_dtor sh w2)
         | (Inr ids, w2) \<Rightarrow>
             (let w3 = fold (glAttachShader (program sh)) ids w2;
                  w4 = glLinkProgram (program sh) w3;
                  (status, w5) = glGetProgramiv drv (program sh) GL_LINK_STATUS w4
              in case (if status = GL_FALSE then link_failed drv (program sh) w5
                       else (Inr (), w5)) of
                   (Inl e, w6) \<Rightarrow> (Inl e, Shared_dtor sh w6)
                 | (Inr u, w6) \<Rightarrow>
                     (let w7 = release_stages (program sh) ids w6
                      in case initUniforms drv sh w7 of
                           (Inl e, w8) \<Rightarrow> (Inl e, Shared_dtor sh w8)
                         | (Inr sh', w8) \<Rightarrow> (Inr \<lparr>share = sh'\<rparr>, w8))))"

section \<open>Observations on the call history\<close>

text \<open>
  The theorems speak about the calls a run appends to the history. The functions of this
  section select calls of one kind; none of them is part of the program.
\<close>

text \<open>Calls made while a stage is created and compiled.\<close>

fun stage_call :: "gl_call \<Rightarrow> bool" where
  "stage_call (CreateShader ty s) = True"
| "stage_call (ShaderSource s code) = True"
| "stage_call (CompileShader s) = True"
| "stage_call (GetShaderiv s pname r) = True"
| "stage_call (GetShaderInfoLog s n cs) = True"
| "stage_call c = False"

text \<open>A compile-status query answered \<open>GL_FALSE\<close>.\<close>

fun compile_failure :: "gl_call \<Rightarrow> bool" where
  "compile_failure (GetShaderiv s pname r) = (pname = GL_COMPILE_STATUS \<and> r = GL_FALSE)"
| "compile_failure c = False"

text \<open>The steps taken on stage objects, without the handles.\<close>

datatype stage_step = Created GLenum | Sourced string | Compiled

fun step_of :: "gl_call \<Rightarrow> stage_step option" where
  "step_of (CreateShader ty s) = Some (Created ty)"
| "step_of (ShaderSource s code) = Some (Sourced code)"
| "step_of (CompileShader s) = Some Compiled"
| "step_of c = None"

fun created_handle :: "gl_call \<Rightarrow> GLuint option" where
  "created_handle (CreateShader ty s) = Some s"
| "created_handle c = None"

fun compiled_handle :: "gl_call \<Rightarrow> GLuint option" where
  "compiled_handle (CompileShader s) = Some s"
| "compiled_handle c = None"

fun attached_handle :: "gl_call \<Rightarrow> GLuint option" where
  "attached_handle (AttachShader p s) = Some s"
| "attached_handle c = None"

fun detached_handle :: "gl_call \<Rightarrow> GLuint option" where
  "detached_handle (DetachShader p s) = Some s"
| "detached_handle c = None"

fun deleted_handle :: "gl_call \<Rightarrow> GLuint option" where
  "deleted_handle (DeleteShader s) = Some s"
| "deleted_handle c = None"

text \<open>The name of a uniform whose location is asked for.\<close>

fun located_name :: "gl_call \<Rightarrow> string option" where
  "located_name (GetUniformLocation p name loc) = Some name"
| "located_name c = None"

text \<open>The steps the constructor takes for slot \<open>i\<close>, and for all non-empty slots in order.\<close>

definition slot_steps :: "ShaderProgram \<Rightarrow> nat \<Rightarrow> stage_step list" where
  "slot_steps source i =
     [Created (shaderTypes ! i), Sourced (takeWhile (\<lambda>c. c \<noteq> NUL) (sources source i)), Compiled]"

definition expected_steps :: "ShaderProgram \<Rightarrow> nat list \<Rightarrow> stage_step list" where
  "expected_steps source idx =
     concat (map (slot_steps source) (filter (\<lambda>i. sources source i \<noteq> []) idx))"

text \<open>The calls of a failed \<open>compile\<close> and the way it ends, by log length and log text.\<close>

definition failed_compile_calls :: "GLuint \<Rightarrow> string \<Rightarrow> GLsizei \<Rightarrow> string \<Rightarrow> gl_call list" where
  "failed_compile_calls s code len lg =
     [ShaderSource s (takeWhile (\<lambda>c. c \<noteq> NUL) code), CompileShader s,
      GetShaderiv s GL_COMPILE_STATUS GL_FALSE, GetShaderiv s GL_INFO_LOG_LENGTH len] @
     (if sint len < 0 then [] else [GetShaderInfoLog s 1024 (take 1023 lg @ [NUL])])"

definition failed_compile_abort :: "string \<Rightarrow> GLsizei \<Rightarrow> string \<Rightarrow> abort" where
  "failed_compile_abort code len lg =
     (if sint len < 0 then AllocationFailure
      else if sint len < int (length (take 1023 lg @ [NUL])) then BufferOverrun
      else ShaderE_CompileError code (takeWhile (\<lambda>c. c \<noteq> NUL) (take 1023 lg)))"

text \<open>The calls of the release loop, and of the rounds of the uniform loop.\<close>

definition release_calls :: "GLuint \<Rightarrow> GLuint list \<Rightarrow> gl_call list" where
  "release_calls p ids = concat (map (\<lambda>s. [DetachShader p s, DeleteShader s]) ids)"

text \<open>
  A round of the uniform loop is given by the characters stored for the name, the array
  size, the type tag and the location; \<open>name_read\<close> is the name read back from the
  characters stored.
\<close>

definition name_read :: "GLchar list \<Rightarrow> string" where
  "name_read cs = takeWhile (\<lambda>c. c \<noteq> NUL) cs"

definition uniform_calls ::
  "GLuint \<Rightarrow> GLsizei \<Rightarrow> nat \<times> GLchar list \<times> GLint \<times> GLenum \<times> GLint \<Rightarrow> gl_call list" where
  "uniform_calls p m =
     (\<lambda>(i, cs, sz, ty, loc).
        [GetActiveUniform p (of_nat i) m (cs, sz, ty), GetUniformLocation p (name_read cs) loc])"

definition uniform_entry :: "GLchar list \<times> GLint \<times> GLenum \<times> GLint \<Rightarrow> string \<times> UniformData" where
  "uniform_entry =
     (\<lambda>(cs, sz, ty, loc). (name_read cs, \<lparr>size = sz, type = ty, location = loc\<rparr>))"

text \<open>The calls of an \<open>initUniforms\<close> that does not return a table, and the way it ends.\<close>

definition failed_introspect_calls ::
  "GLuint \<Rightarrow> GLint \<Rightarrow> GLint \<Rightarrow> GLint \<Rightarrow> GLenum \<Rightarrow> gl_call list" where
  "failed_introspect_calls p n m sz ty =
     [GetProgramiv p GL_ACTIVE_UNIFORMS n, GetProgramiv p GL_ACTIVE_UNIFORM_MAX_LENGTH m] @
     (if sint m < 0 then [] else [GetActiveUniform p 0 m ([], sz, ty)])"

definition failed_introspect_abort :: "GLint \<Rightarrow> abort" where
  "failed_introspect_abort m = (if sint m < 0 then AllocationFailure else BufferOverrun)"

section \<open>Sample drivers and sources\<close>

text \<open>
  A driver on which everything succeeds and the program has two active uniforms, and
  variants of it: the link fails with a log or without one, a compile fails with a log
  or without one, the maximum name length is reported as negative or as zero. Names are
  handed out by counting the calls made so far.
\<close>

definition sample_driver :: driver where
  "sample_driver =
     \<lparr>gen_program = (\<lambda>h. of_nat (length h) + 1),
      gen_shader = (\<lambda>h ty. of_nat (length h) + 1),
      shader_param = (\<lambda>h s pname. 1),
      shader_log = (\<lambda>h s. []),
      program_param = (\<lambda>h p pname. if pname = GL_ACTIVE_UNIFORMS then 2
                         else if pname = GL_ACTIVE_UNIFORM_MAX_LENGTH then 8 else 1),
      program_log = (\<lambda>h p. []),
      active_uniform = (\<lambda>h p i n. if i = 0 then (''u_color'', 1, 0x8B52)
                          else (''u_mvp'', 1, 0x8B5C)),
      uniform_location = (\<lambda>h p name. if name = ''u_color'' then 0 else 1)\<rparr>"

definition sample_source :: ShaderProgram where
  "sample_source = \<lparr>sources = (\<lambda>i. if i = 0 then ''v'' else if i = 4 then ''f'' else [])\<rparr>"

definition link_failing_driver :: driver where
  "link_failing_driver =
     sample_driver\<lparr>
       program_param := (\<lambda>h p pname. if pname = GL_LINK_STATUS then 0
                          else if pname = GL_INFO_LOG_LENGTH then 5 else 0),
       program_log := (\<lambda>h p. ''oops'')\<rparr>"

definition compile_failing_driver :: driver where
  "compile_failing_driver =
     sample_driver\<lparr>
       shader_param := (\<lambda>h s pname. if pname = GL_COMPILE_STATUS then 0 else 4),
       shader_log := (\<lambda>h s. ''bad'')\<rparr>"

definition nolog_driver :: driver where
  "nolog_driver =
     sample_driver\<lparr>
       shader_param := (\<lambda>h s pname. 0),
       shader_log := (\<lambda>h s. [])\<rparr>"

definition silent_link_driver :: driver where
  "silent_link_driver =
     sample_driver\<lparr>
       program_param := (\<lambda>h p pname. if pname = GL_ACTIVE_UNIFORMS then 2
                          else if pname = GL_ACTIVE_UNIFORM_MAX_LENGTH then 8 else 0)\<rparr>"

definition negative_length_driver :: driver where
  "negative_length_driver =
     sample_driver\<lparr>
       program_param := (\<lambda>h p pname. if pname = GL_ACTIVE_UNIFORMS then 2
                          else if pname = GL_ACTIVE_UNIFORM_MAX_LENGTH then - 1 else 1)\<rparr>"

definition zero_length_driver :: driver where
  "zero_length_driver =
     sample_driver\<lparr>
       program_param := (\<lambda>h p pname. if pname = GL_ACTIVE_UNIFORMS then 2
                          else if pname = GL_ACTIVE_UNIFORM_MAX_LENGTH then 0 else 1)\<rparr>"

definition sample_shader :: Shader where
  "sample_shader = \<lparr>share = \<lparr>program = 7, uniforms = Map.empty\<rparr>\<rparr>"

section \<open>Basic facts\<close>

lemma calls_emit [simp]: "calls (emit c w) = calls w @ [c]"
  by (simp add: emit_def)

lemma boundProgram_emit [simp]: "boundProgram (emit c w) = boundProgram w"
  by (simp add: emit_def)

lemma events_since_append: "calls w' = calls w @ evs \<Longrightarrow> events_since w w' = evs"
  by (simp add: events_since_def)

lemma map_filter_append:
  "List.map_filter f (xs @ ys) = List.map_filter f xs @ List.map_filter f ys"
  by (simp add: List.map_filter_def)

lemma map_filter_empty: "(\<And>c. c \<in> set xs \<Longrightarrow> f c = None) \<Longrightarrow> List.map_filter f xs = []"
  by (induction xs) (simp_all add: List.map_filter_simps)

lemma upt_5: "[0..<5] = [0, 1, 2, 3, 4]"
  by (simp add: upt_rec)

lemma GL_pname_distinct [simp]:
  "GL_LINK_STATUS \<noteq> GL_INFO_LOG_LENGTH" "GL_LINK_STATUS \<noteq> GL_ACTIVE_UNIFORMS"
  "GL_LINK_STATUS \<noteq> GL_ACTIVE_UNIFORM_MAX_LENGTH"
  "GL_INFO_LOG_LENGTH \<noteq> GL_LINK_STATUS" "GL_INFO_LOG_LENGTH \<noteq> GL_COMPILE_STATUS"
  "GL_COMPILE_STATUS \<noteq> GL_INFO_LOG_LENGTH"
  "GL_ACTIVE_UNIFORMS \<noteq> GL_ACTIVE_UNIFORM_MAX_LENGTH"
  "GL_ACTIVE_UNIFORM_MAX_LENGTH \<noteq> GL_ACTIVE_UNIFORMS"
  "GL_ACTIVE_UNIFORMS \<noteq> GL_LINK_STATUS" "GL_ACTIVE_UNIFORMS \<noteq> GL_INFO_LOG_LENGTH"
  "GL_ACTIVE_UNIFORM_MAX_LENGTH \<noteq> GL_LINK_STATUS"
  "GL_ACTIVE_UNIFORM_MAX_LENGTH \<noteq> GL_INFO_LOG_LENGTH"
  by (simp_all add: GL_LINK_STATUS_def GL_INFO_LOG_LENGTH_def GL_ACTIVE_UNIFORMS_def
      GL_ACTIVE_UNIFORM_MAX_LENGTH_def GL_COMPILE_STATUS_def)

lemma ShaderE_CompileError_not_LinkError [simp]:
  "ShaderE_CompileError code diag \<noteq> LinkError msg"
  "LinkError msg \<noteq> ShaderE_CompileError code diag"
  by (simp_all add: ShaderE_CompileError_def)

lemma failed_introspect_abort_not_LinkError [simp]:
  "failed_introspect_abort m \<noteq> LinkError msg"
  "LinkError msg \<noteq> failed_introspect_abort m"
  by (simp_all add: failed_introspect_abort_def)

lemma ShaderE_CompileError_not_other [simp]:
  "ShaderE_CompileError code diag \<noteq> BufferOverrun" "ShaderE_CompileError code diag \<noteq> AllocationFailure"
  by (simp_all add: ShaderE_CompileError_def)

subsection \<open>Buffers\<close>

lemma info_log_chars_1024: "info_log_chars 1024 lg = take 1023 lg @ [NUL]"
  by (simp add: info_log_chars_def)

lemma info_log_chars_fit:
  "1 \<le> sint len \<Longrightarrow> info_log_chars len lg = take (nat (sint len) - 1) lg @ [NUL]"
  by (simp add: info_log_chars_def)

lemma takeWhile_NUL_append:
  "takeWhile (\<lambda>c. c \<noteq> NUL) (xs @ NUL # ys) = takeWhile (\<lambda>c. c \<noteq> NUL) xs"
  by (induction xs) simp_all

lemma c_string_store:
  assumes "store_chars (vector_GLchar n) (xs @ [NUL]) = Some b"
  shows "c_string b = Some (takeWhile (\<lambda>c. c \<noteq> NUL) xs)"
proof -
  from assms have b: "b = (xs @ [NUL]) @ drop (length (xs @ [NUL])) (vector_GLchar n)"
    by (auto simp: store_chars_def split: if_splits)
  then have "NUL \<in> set b" by simp
  moreover have "takeWhile (\<lambda>c. c \<noteq> NUL) b = takeWhile (\<lambda>c. c \<noteq> NUL) xs"
    unfolding b by (simp add: takeWhile_NUL_append)
  ultimately show ?thesis by (simp add: c_string_def)
qed

lemma store_chars_None: "store_chars (vector_GLchar n) cs = None \<longleftrightarrow> n < length cs"
  by (auto simp: store_chars_def vector_GLchar_def)

lemma c_string_raw_stored:
  "c_string_raw (map Some xs @ Some NUL # ys) = Some (takeWhile (\<lambda>c. c \<noteq> NUL) xs)"
  by (induction xs) simp_all

lemma name_read_stored: "name_read (xs @ [NUL]) = takeWhile (\<lambda>c. c \<noteq> NUL) xs"
  by (simp add: name_read_def takeWhile_NUL_append)

subsection \<open>Single calls\<close>

lemma glCreateShader_run:
  "glCreateShader drv ty w = (s, w1) \<Longrightarrow>
     calls w1 = calls w @ [CreateShader ty s] \<and> boundProgram w1 = boundProgram w"
  by (auto simp: glCreateShader_def Let_def)

lemma glGetProgramiv_run:
  "glGetProgramiv drv p pname w = (r, w1) \<Longrightarrow>
     calls w1 = calls w @ [GetProgramiv p pname r] \<and> boundProgram w1 = boundProgram w"
  by (auto simp: glGetProgramiv_def Let_def)

lemma attach_run:
  "calls (fold (glAttachShader p) ids w) = calls w @ map (AttachShader p) ids
   \<and> boundProgram (fold (glAttachShader p) ids w) = boundProgram w"
  by (induction ids arbitrary: w) (simp_all add: glAttachShader_def)

lemma release_stages_run:
  "calls (release_stages p ids w) = calls w @ release_calls p ids
   \<and> boundProgram (release_stages p ids w) = boundProgram w"
  by (induction ids arbitrary: w)
     (simp_all add: release_calls_def glDetachShader_def glDeleteShader_def)

subsection \<open>Which calls a part of the history can hold\<close>

lemma stage_call_mem: "list_all stage_call evs \<Longrightarrow> c \<in> set evs \<Longrightarrow> stage_call c"
  by (simp add: list_all_iff)

lemma no_compile_failure_mem:
  "\<not> list_ex compile_failure evs \<Longrightarrow> GetShaderiv s GL_COMPILE_STATUS GL_FALSE \<notin> set evs"
  by (auto simp: list_ex_iff)

lemma shader_query_elsewhere [simp]:
  "GetShaderiv s pname v \<notin> AttachShader p ` A"
  "GetShaderiv s pname v \<notin> set (release_calls p ids)"
  "GetShaderiv s pname v \<notin> set (concat (map (uniform_calls p m) zs))"
  "GetShaderiv s pname v \<notin> set (uniform_calls p m x)"
  "GetShaderiv s pname v \<notin> set (failed_introspect_calls p n m sz ty)"
  by (auto simp: release_calls_def uniform_calls_def failed_introspect_calls_def)

lemma program_query_elsewhere [simp]:
  "GetProgramiv q pname v \<notin> AttachShader p ` A"
  "GetProgramiv q pname v \<notin> set (release_calls p ids)"
  "GetProgramiv q pname v \<notin> set (concat (map (uniform_calls p m) zs))"
  "GetProgramiv q pname v \<notin> set (uniform_calls p m x)"
  "GetProgramiv q pname v \<notin> set (failed_compile_calls s code len lg)"
  "list_all stage_call evs \<Longrightarrow> GetProgramiv q pname v \<notin> set evs"
  by (auto simp: release_calls_def uniform_calls_def failed_compile_calls_def
      dest: stage_call_mem)

section \<open>The compile lambda\<close>

lemma compile_ok:
  assumes "compile drv s code w = (Inr u, w')"
  shows "\<exists>st. st \<noteq> GL_FALSE \<and>
           calls w' = calls w @ [ShaderSource s (takeWhile (\<lambda>c. c \<noteq> NUL) code), CompileShader s,
                                 GetShaderiv s GL_COMPILE_STATUS st]
           \<and> boundProgram w' = boundProgram w"
  using assms
  by (auto simp: compile_def glShaderSource_def glCompileShader_def glGetShaderiv_def
      glGetShaderInfoLog_def Let_def split: if_splits prod.splits option.splits)

lemma compile_fail:
  assumes "compile drv s code w = (Inl e, w')"
  shows "\<exists>len lg. boundProgram w' = boundProgram w \<and>
           calls w' = calls w @ failed_compile_calls s code len lg \<and>
           e = failed_compile_abort code len lg"
proof -
  define w3 where
    "w3 = snd (glGetShaderiv drv s GL_COMPILE_STATUS (glCompileShader s (glShaderSource s code w)))"
  define len where "len = fst (glGetShaderiv drv s GL_INFO_LOG_LENGTH w3)"
  define w4 where "w4 = snd (glGetShaderiv drv s GL_INFO_LOG_LENGTH w3)"
  define lg where "lg = shader_log drv (calls w4) s"
  have st: "fst (glGetShaderiv drv s GL_COMPILE_STATUS
                   (glCompileShader s (glShaderSource s code w))) = GL_FALSE"
    using assms by (auto simp: compile_def Let_def split: if_splits prod.splits)
  have c3: "calls w3 = calls w @ [ShaderSource s (takeWhile (\<lambda>c. c \<noteq> NUL) code), CompileShader s,
                    GetShaderiv s GL_COMPILE_STATUS GL_FALSE]"
    using st by (simp add: w3_def glShaderSource_def glCompileShader_def glGetShaderiv_def Let_def)
  have b3: "boundProgram w3 = boundProgram w"
    by (simp add: w3_def glShaderSource_def glCompileShader_def glGetShaderiv_def Let_def)
  have c4: "calls w4 = calls w3 @ [GetShaderiv s GL_INFO_LOG_LENGTH len]"
    by (simp add: w4_def len_def glGetShaderiv_def Let_def)
  have b4: "boundProgram w4 = boundProgram w3"
    by (simp add: w4_def glGetShaderiv_def Let_def)
  have eq: "compile drv s code w =
      (if sint len < 0 then (Inl AllocationFailure, w4)
       else (let log = vector_GLchar (nat (sint len));
                 (cs, w5) = glGetShaderInfoLog drv s 1024 w4
             in case store_chars log cs of
                  None \<Rightarrow> (Inl BufferOverrun, w5)
                | Some log' \<Rightarrow>
                    (case c_string log' of
                       None \<Rightarrow> (Inl BufferOverrun, w5)
                     | Some errStr \<Rightarrow> (Inl (ShaderE_CompileError code errStr), w5))))"
    using st unfolding compile_def Let_def w3_def len_def w4_def
    by (simp add: case_prod_beta)
  note body = trans[OF assms[symmetric] eq]
  show ?thesis
  proof (cases "sint len < 0")
    case True
    with body have "e = AllocationFailure" "w' = w4" by simp_all
    with True c3 c4 b3 b4 show ?thesis
      by (intro exI[of _ len]) (simp add: failed_compile_calls_def failed_compile_abort_def)
  next
    case False
    define cs where "cs = take 1023 lg @ [NUL]"
    define w5 where "w5 = emit (GetShaderInfoLog s 1024 cs) w4"
    have g: "glGetShaderInfoLog drv s 1024 w4 = (cs, w5)"
      by (simp add: glGetShaderInfoLog_def info_log_chars_1024 lg_def cs_def w5_def Let_def)
    have w': "w' = w5"
      using body False g by (auto simp: Let_def split: option.splits)
    have e: "e = (if sint len < int (length cs) then BufferOverrun
                  else ShaderE_CompileError code (takeWhile (\<lambda>c. c \<noteq> NUL) (take 1023 lg)))"
    proof (cases "store_chars (vector_GLchar (nat (sint len))) cs")
      case None
      then have "nat (sint len) < length cs" by (simp add: store_chars_None)
      then have "sint len < int (length cs)" using False by linarith
      moreover have "e = BufferOverrun" using body False g None by (simp add: Let_def)
      ultimately show ?thesis by simp
    next
      case (Some b)
      then have "\<not> nat (sint len) < length cs"
        using store_chars_None[of "nat (sint len)" cs] by simp
      then have nlt: "\<not> sint len < int (length cs)" using False by linarith
      have "c_string b = Some (takeWhile (\<lambda>c. c \<noteq> NUL) (take 1023 lg))"
        using Some unfolding cs_def by (rule c_string_store)
      then have "e = ShaderE_CompileError code (takeWhile (\<lambda>c. c \<noteq> NUL) (take 1023 lg))"
        using body False g Some by (simp add: Let_def)
      with nlt show ?thesis by simp
    qed
    show ?thesis
      by (rule exI[of _ len], rule exI[of _ lg])
         (use False e w' c3 c4 b3 b4 in
           \<open>simp add: w5_def cs_def failed_compile_calls_def failed_compile_abort_def\<close>)
  qed
qed

section \<open>The loop over the stage slots\<close>

lemma stage_loop_Inr:
  "stage_loop drv source idx ids w = (Inr ids', w') \<Longrightarrow>
   \<exists>evs. calls w' = calls w @ evs \<and> boundProgram w' = boundProgram w \<and>
     list_all stage_call evs \<and> \<not> list_ex compile_failure evs \<and>
     ids' = ids @ List.map_filter created_handle evs \<and>
     List.map_filter step_of evs = expected_steps source idx \<and>
     List.map_filter compiled_handle evs = List.map_filter created_handle evs"
proof (induction idx arbitrary: ids w)
  case Nil
  then show ?case by (simp add: List.map_filter_simps expected_steps_def)
next
  case (Cons i rest)
  show ?case
  proof (cases "sources source i = []")
    case True
    with Cons.prems have "stage_loop drv source rest ids w = (Inr ids', w')" by simp
    from Cons.IH[OF this] True show ?thesis by (simp add: expected_steps_def)
  next
    case False
    obtain s w1 where cr: "glCreateShader drv (shaderTypes ! i) w = (s, w1)"
      by (cases "glCreateShader drv (shaderTypes ! i) w")
    obtain r w2 where co: "compile drv s (sources source i) w1 = (r, w2)"
      by (cases "compile drv s (sources source i) w1")
    from Cons.prems False cr co obtain u where r: "r = Inr u"
      and rec: "stage_loop drv source rest (ids @ [s]) w2 = (Inr ids', w')"
      by (cases r) (auto simp: Let_def)
    from compile_ok[OF co[unfolded r]] obtain st where st: "st \<noteq> GL_FALSE"
      and c2: "calls w2 = calls w1 @ [ShaderSource s (takeWhile (\<lambda>c. c \<noteq> NUL) (sources source i)),
                 CompileShader s, GetShaderiv s GL_COMPILE_STATUS st]"
      and b2: "boundProgram w2 = boundProgram w1" by blast
    from glCreateShader_run[OF cr] have c1: "calls w1 = calls w @ [CreateShader (shaderTypes ! i) s]"
      and b1: "boundProgram w1 = boundProgram w" by simp_all
    from Cons.IH[OF rec] obtain evs where evs: "calls w' = calls w2 @ evs"
      "boundProgram w' = boundProgram w2" "list_all stage_call evs" "\<not> list_ex compile_failure evs"
      "ids' = (ids @ [s]) @ List.map_filter created_handle evs"
      "List.map_filter step_of evs = expected_steps source rest"
      "List.map_filter compiled_handle evs = List.map_filter created_handle evs" by blast
    let ?hd = "[CreateShader (shaderTypes ! i) s,
                ShaderSource s (takeWhile (\<lambda>c. c \<noteq> NUL) (sources source i)),
                CompileShader s, GetShaderiv s GL_COMPILE_STATUS st]"
    show ?thesis
      by (rule exI[of _ "?hd @ evs"])
         (use evs c1 c2 b1 b2 st False in
           \<open>simp add: map_filter_append List.map_filter_simps expected_steps_def slot_steps_def\<close>)
  qed
qed

lemma stage_loop_Inl:
  "stage_loop drv source idx ids w = (Inl e, w') \<Longrightarrow>
   \<exists>pre i s len lg. i \<in> set idx \<and> sources source i \<noteq> [] \<and>
     boundProgram w' = boundProgram w \<and>
     list_all stage_call pre \<and> \<not> list_ex compile_failure pre \<and>
     prefix (List.map_filter step_of pre @ slot_steps source i) (expected_steps source idx) \<and>
     List.map_filter compiled_handle pre = List.map_filter created_handle pre \<and>
     calls w' = calls w @ pre @ CreateShader (shaderTypes ! i) s #
                  failed_compile_calls s (sources source i) len lg \<and>
     e = failed_compile_abort (sources source i) len lg"
proof (induction idx arbitrary: ids w)
  case Nil
  then show ?case by simp
next
  case (Cons j rest)
  show ?case
  proof (cases "sources source j = []")
    case True
    with Cons.prems have "stage_loop drv source rest ids w = (Inl e, w')" by simp
    from Cons.IH[OF this] obtain pre i s len lg where
      ih0: "i \<in> set rest \<and> sources source i \<noteq> [] \<and>
        boundProgram w' = boundProgram w \<and>
        list_all stage_call pre \<and> \<not> list_ex compile_failure pre \<and>
        prefix (List.map_filter step_of pre @ slot_steps source i) (expected_steps source rest) \<and>
        List.map_filter compiled_handle pre = List.map_filter created_handle pre \<and>
        calls w' = calls w @ pre @ CreateShader (shaderTypes ! i) s #
                     failed_compile_calls s (sources source i) len lg \<and>
        e = failed_compile_abort (sources source i) len lg"
      by blast
    show ?thesis
      by (rule exI[of _ pre], rule exI[of _ i], rule exI[of _ s], rule exI[of _ len],
          rule exI[of _ lg])
         (use ih0 True in \<open>simp add: expected_steps_def\<close>)
  next
    case False
    obtain s w1 where cr: "glCreateShader drv (shaderTypes ! j) w = (s, w1)"
      by (cases "glCreateShader drv (shaderTypes ! j) w")
    obtain r w2 where co: "compile drv s (sources source j) w1 = (r, w2)"
      by (cases "compile drv s (sources source j) w1")
    from glCreateShader_run[OF cr] have c1: "calls w1 = calls w @ [CreateShader (shaderTypes ! j) s]"
      and b1: "boundProgram w1 = boundProgram w" by simp_all
    show ?thesis
    proof (cases r)
      case (Inl e')
      with Cons.prems False cr co have ew: "e' = e" "w2 = w'" by (auto simp: Let_def)
      from compile_fail[OF co[unfolded Inl ew]] obtain len lg where
        f: "boundProgram w' = boundProgram w1"
           "calls w' = calls w1 @ failed_compile_calls s (sources source j) len lg"
           "e = failed_compile_abort (sources source j) len lg"
        by blast
      show ?thesis
        by (rule exI[of _ "[]"], rule exI[of _ j], rule exI[of _ s], rule exI[of _ len],
            rule exI[of _ lg])
           (use f c1 b1 False in \<open>simp add: List.map_filter_simps expected_steps_def\<close>)
    next
      case (Inr u)
      with Cons.prems False cr co
      have rec: "stage_loop drv source rest (ids @ [s]) w2 = (Inl e, w')"
        by (auto simp: Let_def)
      from compile_ok[OF co[unfolded Inr]] obtain st where st: "st \<noteq> GL_FALSE"
        and c2: "calls w2 = calls w1 @ [ShaderSource s (takeWhile (\<lambda>c. c \<noteq> NUL) (sources source j)),
                 CompileShader s, GetShaderiv s GL_COMPILE_STATUS st]"
        and b2: "boundProgram w2 = boundProgram w1" by blast
      let ?hd = "[CreateShader (shaderTypes ! j) s,
                ShaderSource s (takeWhile (\<lambda>c. c \<noteq> NUL) (sources source j)),
                CompileShader s, GetShaderiv s GL_COMPILE_STATUS st]"
      from Cons.IH[OF rec] obtain pre i s' len lg where
        ih: "i \<in> set rest \<and> sources source i \<noteq> [] \<and>
          boundProgram w' = boundProgram w2 \<and>
          list_all stage_call pre \<and> \<not> list_ex compile_failure pre \<and>
          prefix (List.map_filter step_of pre @ slot_steps source i) (expected_steps source rest) \<and>
          List.map_filter compiled_handle pre = List.map_filter created_handle pre \<and>
          calls w' = calls w2 @ pre @ CreateShader (shaderTypes ! i) s' #
                       failed_compile_calls s' (sources source i) len lg \<and>
          e = failed_compile_abort (sources source i) len lg"
        by blast
      show ?thesis
        by (rule exI[of _ "?hd @ pre"], rule exI[of _ i], rule exI[of _ s'], rule exI[of _ len],
            rule exI[of _ lg])
           (use ih c1 c2 b1 b2 st False in
             \<open>simp add: map_filter_append List.map_filter_simps expected_steps_def slot_steps_def\<close>)
    qed
  qed
qed

section \<open>Link check, uniform table and the whole constructor\<close>

lemma link_failed_run:
  assumes "link_failed drv p w = (r, w')"
  shows "\<exists>len lg. boundProgram w' = boundProgram w \<and>
     (if 1 \<le> sint len
      then r = Inl (ShaderE_LinkError (takeWhile (\<lambda>c. c \<noteq> NUL) (take (nat (sint len) - 1) lg))) \<and>
           calls w' = calls w @ [GetProgramiv p GL_INFO_LOG_LENGTH len,
                                 GetProgramInfoLog p len (take (nat (sint len) - 1) lg @ [NUL])]
      else r = Inr () \<and> calls w' = calls w @ [GetProgramiv p GL_INFO_LOG_LENGTH len])"
proof -
  obtain len w1 where q: "glGetProgramiv drv p GL_INFO_LOG_LENGTH w = (len, w1)"
    by (cases "glGetProgramiv drv p GL_INFO_LOG_LENGTH w")
  note q1 = glGetProgramiv_run[OF q]
  define lg where "lg = program_log drv (calls w1) p"
  show ?thesis
  proof (cases "1 \<le> sint len")
    case False
    with assms q have "r = Inr ()" "w' = w1" by (simp_all add: link_failed_def)
    with q1 False show ?thesis
      by (intro exI[of _ len]) simp
  next
    case True
    define cs where "cs = take (nat (sint len) - 1) lg @ [NUL]"
    define w2 where "w2 = emit (GetProgramInfoLog p len cs) w1"
    have g: "glGetProgramInfoLog drv p len w1 = (cs, w2)"
      using True
      by (simp add: glGetProgramInfoLog_def info_log_chars_fit lg_def cs_def w2_def Let_def)
    have "length cs \<le> nat (sint len)" using True by (simp add: cs_def)
    then obtain b where b: "store_chars (vector_GLchar (nat (sint len))) cs = Some b"
      using store_chars_None[of "nat (sint len)" cs]
      by (cases "store_chars (vector_GLchar (nat (sint len))) cs") auto
    have cstr: "c_string b = Some (takeWhile (\<lambda>c. c \<noteq> NUL) (take (nat (sint len) - 1) lg))"
      using b unfolding cs_def by (rule c_string_store)
    from assms q True g b cstr
    have "r = Inl (ShaderE_LinkError (takeWhile (\<lambda>c. c \<noteq> NUL) (take (nat (sint len) - 1) lg)))"
      "w' = w2"
      by (simp_all add: link_failed_def Let_def)
    with q1 True show ?thesis
      by (rule_tac x = len in exI, rule_tac x = lg in exI) (simp add: w2_def cs_def)
  qed
qed

lemma uniform_loop_fits:
  assumes "1 \<le> sint m"
  shows "length name = nat (sint m) \<Longrightarrow>
   \<exists>us' w' rs. uniform_loop drv p m idx name us w = (Inr us', w') \<and>
     length rs = length idx \<and> boundProgram w' = boundProgram w \<and>
     calls w' = calls w @ concat (map (uniform_calls p m) (zip idx rs)) \<and>
     us' = us ++ map_of (rev (map uniform_entry rs))"
proof (induction idx arbitrary: name us w)
  case Nil
  then show ?case by simp
next
  case (Cons i rest)
  obtain nm sz ty where a: "active_uniform drv (calls w) p (of_nat i) m = (nm, sz, ty)"
    by (cases "active_uniform drv (calls w) p (of_nat i) m") auto
  define xs where "xs = take (nat (sint m) - 1) nm"
  define cs where "cs = xs @ [NUL]"
  define w1 where "w1 = emit (GetActiveUniform p (of_nat i) m (cs, sz, ty)) w"
  have g: "glGetActiveUniform drv p (of_nat i) m w = ((cs, sz, ty), w1)"
    using assms a by (simp add: glGetActiveUniform_def name_chars_def cs_def xs_def w1_def Let_def)
  have len: "length cs \<le> length name"
    using assms Cons.prems by (simp add: cs_def xs_def)
  define name' where "name' = map Some xs @ Some NUL # drop (length cs) name"
  have st: "store_raw name cs = Some name'"
    using len by (simp add: store_raw_def name'_def cs_def)
  have rd: "c_string_raw name' = Some (name_read cs)"
    by (simp add: name'_def c_string_raw_stored cs_def name_read_stored)
  have len': "length name' = nat (sint m)"
    using len Cons.prems by (simp add: name'_def cs_def)
  obtain loc w2 where l: "glGetUniformLocation drv p (name_read cs) w1 = (loc, w2)"
    by (cases "glGetUniformLocation drv p (name_read cs) w1")
  have c2: "calls w2 = calls w @ [GetActiveUniform p (of_nat i) m (cs, sz, ty),
                                  GetUniformLocation p (name_read cs) loc]"
    and b2: "boundProgram w2 = boundProgram w"
    using l by (auto simp: glGetUniformLocation_def Let_def w1_def)
  from Cons.IH[OF len', of "us(name_read cs \<mapsto> \<lparr>size = sz, type = ty, location = loc\<rparr>)" w2]
  obtain us' w' rs where ih:
    "uniform_loop drv p m rest name'
       (us(name_read cs \<mapsto> \<lparr>size = sz, type = ty, location = loc\<rparr>)) w2 = (Inr us', w')"
    "length rs = length rest" "boundProgram w' = boundProgram w2"
    "calls w' = calls w2 @ concat (map (uniform_calls p m) (zip rest rs))"
    "us' = us(name_read cs \<mapsto> \<lparr>size = sz, type = ty, location = loc\<rparr>) ++
             map_of (rev (map uniform_entry rs))"
    by blast
  have step: "uniform_loop drv p m (i # rest) name us w = (Inr us', w')"
    by (simp add: g st rd l ih(1))
  show ?case
    by (rule exI[of _ us'], rule exI[of _ w'], rule exI[of _ "(cs, sz, ty, loc) # rs"])
       (use step ih c2 b2 in \<open>simp add: uniform_calls_def uniform_entry_def map_add_upd_left\<close>)
qed

lemma uniform_loop_no_room:
  assumes "sint m \<le> 0"
  shows "\<exists>sz ty. uniform_loop drv p m (i # rest) [] us w =
           (Inl BufferOverrun, emit (GetActiveUniform p (of_nat i) m ([], sz, ty)) w)"
proof -
  obtain nm sz ty where a: "active_uniform drv (calls w) p (of_nat i) m = (nm, sz, ty)"
    by (cases "active_uniform drv (calls w) p (of_nat i) m") auto
  show ?thesis
    by (rule exI[of _ sz], rule exI[of _ ty])
       (use assms a in \<open>simp add: glGetActiveUniform_def name_chars_def store_raw_def Let_def\<close>)
qed

lemma located_names_uniform_calls:
  "length rs = length idx \<Longrightarrow>
     List.map_filter located_name (concat (map (uniform_calls p m) (zip idx rs)))
       = map (\<lambda>r. name_read (fst r)) rs"
proof (induction idx arbitrary: rs)
  case Nil
  then show ?case by (simp add: List.map_filter_simps)
next
  case (Cons i rest)
  then obtain r rs' where rs: "rs = r # rs'" "length rs' = length rest"
    by (cases rs) auto
  obtain cs sz ty loc where r: "r = (cs, sz, ty, loc)" by (cases r) auto
  from Cons.IH[OF rs(2)] show ?case
    by (simp add: rs r uniform_calls_def List.map_filter_simps map_filter_append)
qed

text \<open>
  \<open>initUniforms\<close> returns the table when the maximum name length reported is at least 1,
  or is 0 and no uniform is reported. Otherwise it ends in the allocation of the scratch
  array (negative length) or in the first read of the empty array.
\<close>

lemma initUniforms_run:
  assumes "initUniforms drv sh w = (r, w')"
  shows "\<exists>n m. boundProgram w' = boundProgram w \<and>
     (if 1 \<le> sint m \<or> (0 \<le> sint m \<and> sint n \<le> 0)
      then \<exists>rs. length rs = nat (sint n) \<and>
             calls w' = calls w @
               [GetProgramiv (program sh) GL_ACTIVE_UNIFORMS n,
                GetProgramiv (program sh) GL_ACTIVE_UNIFORM_MAX_LENGTH m] @
               concat (map (uniform_calls (program sh) m) (zip [0..<nat (sint n)] rs)) \<and>
             r = Inr (sh\<lparr>uniforms := uniforms sh ++ map_of (rev (map uniform_entry rs))\<rparr>)
      else \<exists>sz ty. calls w' = calls w @ failed_introspect_calls (program sh) n m sz ty \<and>
             r = Inl (failed_introspect_abort m))"
proof -
  obtain n w1 where q1: "glGetProgramiv drv (program sh) GL_ACTIVE_UNIFORMS w = (n, w1)"
    by (cases "glGetProgramiv drv (program sh) GL_ACTIVE_UNIFORMS w")
  obtain m w2 where q2: "glGetProgramiv drv (program sh) GL_ACTIVE_UNIFORM_MAX_LENGTH w1 = (m, w2)"
    by (cases "glGetProgramiv drv (program sh) GL_ACTIVE_UNIFORM_MAX_LENGTH w1")
  have c2: "calls w2 = calls w @ [GetProgramiv (program sh) GL_ACTIVE_UNIFORMS n,
                                  GetProgramiv (program sh) GL_ACTIVE_UNIFORM_MAX_LENGTH m]"
    and b2: "boundProgram w2 = boundProgram w"
    using glGetProgramiv_run[OF q1] glGetProgramiv_run[OF q2] by simp_all
  consider (neg) "sint m < 0" | (fits) "1 \<le> sint m"
    | (none) "sint m = 0" "sint n \<le> 0" | (no_room) "sint m = 0" "1 \<le> sint n"
    by linarith
  then show ?thesis
  proof cases
    case neg
    with assms q1 q2 have "r = Inl AllocationFailure" "w' = w2"
      by (simp_all add: initUniforms_def)
    with neg c2 b2 show ?thesis
      by (intro exI[of _ n] exI[of _ m])
         (simp add: failed_introspect_calls_def failed_introspect_abort_def)
  next
    case fits
    have "length (new_GLchar (nat (sint m))) = nat (sint m)" by (simp add: new_GLchar_def)
    from uniform_loop_fits[OF fits this, of drv "program sh" "[0..<nat (sint n)]" "uniforms sh" w2]
    obtain us' w3 rs where lp:
      "uniform_loop drv (program sh) m [0..<nat (sint n)] (new_GLchar (nat (sint m)))
         (uniforms sh) w2 = (Inr us', w3)"
      "length rs = length [0..<nat (sint n)]" "boundProgram w3 = boundProgram w2"
      "calls w3 = calls w2 @ concat (map (uniform_calls (program sh) m) (zip [0..<nat (sint n)] rs))"
      "us' = uniforms sh ++ map_of (rev (map uniform_entry rs))"
      by blast
    from assms q1 q2 lp(1) fits have res: "r = Inr (sh\<lparr>uniforms := us'\<rparr>)" "w' = w3"
      by (simp_all add: initUniforms_def)
    from fits have cond: "1 \<le> sint m \<or> (0 \<le> sint m \<and> sint n \<le> 0)" by simp
    show ?thesis
      apply (rule exI[of _ n], rule exI[of _ m])
      apply (simp only: cond if_True)
      apply (rule conjI)
       apply (simp add: res lp b2)
      by (rule exI[of _ rs]) (use lp res c2 in simp)
  next
    case none
    then have idx: "[0..<nat (sint n)] = []" by simp
    from assms q1 q2 none have res: "r = Inr (sh\<lparr>uniforms := uniforms sh\<rparr>)" "w' = w2"
      by (simp_all add: initUniforms_def idx)
    from none have cond: "1 \<le> sint m \<or> (0 \<le> sint m \<and> sint n \<le> 0)" by simp
    show ?thesis
      apply (rule exI[of _ n], rule exI[of _ m])
      apply (simp only: cond if_True)
      apply (rule conjI)
       apply (simp add: res b2)
      by (rule exI[of _ "[]"]) (use res c2 none in simp)
  next
    case no_room
    then have idx: "[0..<nat (sint n)] = 0 # [Suc 0..<nat (sint n)]"
      by (simp add: upt_conv_Cons)
    have buf: "new_GLchar 0 = []" by (simp add: new_GLchar_def)
    from no_room have "sint m \<le> 0" by simp
    from uniform_loop_no_room[OF this, of drv "program sh" 0 "[Suc 0..<nat (sint n)]" "uniforms sh" w2]
    obtain sz ty where lp:
      "uniform_loop drv (program sh) m (0 # [Suc 0..<nat (sint n)]) [] (uniforms sh) w2 =
         (Inl BufferOverrun, emit (GetActiveUniform (program sh) 0 m ([], sz, ty)) w2)"
      by auto
    from assms q1 q2 no_room have res: "r = Inl BufferOverrun"
      "w' = emit (GetActiveUniform (program sh) 0 m ([], sz, ty)) w2"
      by (simp_all add: initUniforms_def idx buf lp del: uniform_loop.simps)
    from no_room have cond: "\<not> (1 \<le> sint m \<or> (0 \<le> sint m \<and> sint n \<le> 0))" by simp
    show ?thesis
      apply (rule exI[of _ n], rule exI[of _ m])
      apply (simp only: cond if_False)
      apply (rule conjI)
       apply (simp add: res b2)
      by (rule exI[of _ sz], rule exI[of _ ty])
         (use res c2 no_room in \<open>simp add: failed_introspect_calls_def failed_introspect_abort_def\<close>)
  qed
qed

text \<open>
  The four ways a construction can go: a stage fails to compile, the link fails with a
  log, the uniform table cannot be read, or a \<open>Shader\<close> is returned. Each case gives
  the calls made, in order.
\<close>

lemma Shader_ctor_cases
  [consumes 1, case_names compile_abort link_abort introspect_abort returned]:
  assumes run: "Shader_ctor drv source w = (r, w')"
    and compile_abort: "\<And>p pre i s len lg.
      \<lbrakk>boundProgram w' = boundProgram w; i < 5; sources source i \<noteq> [];
       list_all stage_call pre; \<not> list_ex compile_failure pre;
       prefix (List.map_filter step_of pre @ slot_steps source i) (expected_steps source [0..<5]);
       List.map_filter compiled_handle pre = List.map_filter created_handle pre;
       r = Inl (failed_compile_abort (sources source i) len lg);
       events_since w w' = CreateProgram p # pre @ CreateShader (shaderTypes ! i) s #
          failed_compile_calls s (sources source i) len lg @ [DeleteProgram p]\<rbrakk> \<Longrightarrow> thesis"
    and link_abort: "\<And>p evs len lg.
      \<lbrakk>boundProgram w' = boundProgram w;
       list_all stage_call evs; \<not> list_ex compile_failure evs;
       List.map_filter step_of evs = expected_steps source [0..<5];
       List.map_filter compiled_handle evs = List.map_filter created_handle evs;
       1 \<le> sint len;
       r = Inl (ShaderE_LinkError (takeWhile (\<lambda>c. c \<noteq> NUL) (take (nat (sint len) - 1) lg)));
       events_since w w' = CreateProgram p # evs @
          map (AttachShader p) (List.map_filter created_handle evs) @
          [LinkProgram p, GetProgramiv p GL_LINK_STATUS GL_FALSE,
           GetProgramiv p GL_INFO_LOG_LENGTH len,
           GetProgramInfoLog p len (take (nat (sint len) - 1) lg @ [NUL]), DeleteProgram p]\<rbrakk>
      \<Longrightarrow> thesis"
    and introspect_abort: "\<And>p evs st len n m sz ty.
      \<lbrakk>boundProgram w' = boundProgram w;
       list_all stage_call evs; \<not> list_ex compile_failure evs;
       List.map_filter step_of evs = expected_steps source [0..<5];
       List.map_filter compiled_handle evs = List.map_filter created_handle evs;
       st = GL_FALSE \<Longrightarrow> sint len < 1;
       \<not> (1 \<le> sint m \<or> (0 \<le> sint m \<and> sint n \<le> 0));
       r = Inl (failed_introspect_abort m);
       events_since w w' = CreateProgram p # evs @
          map (AttachShader p) (List.map_filter created_handle evs) @
          [LinkProgram p, GetProgramiv p GL_LINK_STATUS st] @
          (if st = GL_FALSE then [GetProgramiv p GL_INFO_LOG_LENGTH len] else []) @
          release_calls p (List.map_filter created_handle evs) @
          failed_introspect_calls p n m sz ty @ [DeleteProgram p]\<rbrakk> \<Longrightarrow> thesis"
    and returned: "\<And>p evs st len sh n m rs.
      \<lbrakk>boundProgram w' = boundProgram w;
       list_all stage_call evs; \<not> list_ex compile_failure evs;
       List.map_filter step_of evs = expected_steps source [0..<5];
       List.map_filter compiled_handle evs = List.map_filter created_handle evs;
       st = GL_FALSE \<Longrightarrow> sint len < 1;
       1 \<le> sint m \<or> (0 \<le> sint m \<and> sint n \<le> 0);
       r = Inr sh; program (share sh) = p; length rs = nat (sint n);
       uniforms (share sh) = map_of (rev (map uniform_entry rs));
       events_since w w' = CreateProgram p # evs @
          map (AttachShader p) (List.map_filter created_handle evs) @
          [LinkProgram p, GetProgramiv p GL_LINK_STATUS st] @
          (if st = GL_FALSE then [GetProgramiv p GL_INFO_LOG_LENGTH len] else []) @
          release_calls p (List.map_filter created_handle evs) @
          [GetProgramiv p GL_ACTIVE_UNIFORMS n, GetProgramiv p GL_ACTIVE_UNIFORM_MAX_LENGTH m] @
          concat (map (uniform_calls p m) (zip [0..<nat (sint n)] rs))\<rbrakk> \<Longrightarrow> thesis"
  shows thesis
proof -
  define p where "p = gen_program drv (calls w)"
  define w1 where "w1 = emit (CreateProgram p) w"
  define sh where "sh = \<lparr>program = p, uniforms = Map.empty\<rparr>"
  have sc: "Shared_ctor drv w = (sh, w1)"
    by (simp add: Shared_ctor_def glCreateProgram_def Let_def p_def w1_def sh_def)
  have psh: "program sh = p" "uniforms sh = Map.empty" by (simp_all add: sh_def)
  have c1: "calls w1 = calls w @ [CreateProgram p]" and b1: "boundProgram w1 = boundProgram w"
    by (simp_all add: w1_def)
  obtain sr w2 where sl: "stage_loop drv source [0..<5] [] w1 = (sr, w2)"
    by (cases "stage_loop drv source [0..<5] [] w1")
  show ?thesis
  proof (cases sr)
    case (Inl e)
    from run sc sl Inl have res: "r = Inl e" "w' = emit (DeleteProgram p) w2"
      by (simp_all add: Shader_ctor_def Shared_dtor_def glDeleteProgram_def psh)
    from stage_loop_Inl[OF sl[unfolded Inl]] obtain pre i s len lg where
      f: "i \<in> set [0..<5]" "sources source i \<noteq> []"
        "boundProgram w2 = boundProgram w1"
        "list_all stage_call pre" "\<not> list_ex compile_failure pre"
        "prefix (List.map_filter step_of pre @ slot_steps source i) (expected_steps source [0..<5])"
        "List.map_filter compiled_handle pre = List.map_filter created_handle pre"
        "calls w2 = calls w1 @ pre @ CreateShader (shaderTypes ! i) s #
                     failed_compile_calls s (sources source i) len lg"
        "e = failed_compile_abort (sources source i) len lg"
      by blast
    have i5: "i < 5" using f(1) by simp
    have ev: "events_since w w' = CreateProgram p # pre @ CreateShader (shaderTypes ! i) s #
          failed_compile_calls s (sources source i) len lg @ [DeleteProgram p]"
      by (rule events_since_append) (simp add: res f c1)
    show ?thesis
      by (rule compile_abort[of i pre len lg p s]) (use f res b1 i5 ev in simp_all)
  next
    case (Inr ids)
    from stage_loop_Inr[OF sl[unfolded Inr]] obtain evs where evs:
      "calls w2 = calls w1 @ evs" "boundProgram w2 = boundProgram w1"
      "list_all stage_call evs" "\<not> list_ex compile_failure evs"
      "ids = List.map_filter created_handle evs"
      "List.map_filter step_of evs = expected_steps source [0..<5]"
      "List.map_filter compiled_handle evs = List.map_filter created_handle evs"
      by auto
    define w4 where "w4 = glLinkProgram p (fold (glAttachShader p) ids w2)"
    have c4: "calls w4 = calls w2 @ map (AttachShader p) ids @ [LinkProgram p]"
      and b4: "boundProgram w4 = boundProgram w2"
      by (simp_all add: w4_def glLinkProgram_def attach_run)
    obtain st w5 where q: "glGetProgramiv drv p GL_LINK_STATUS w4 = (st, w5)"
      by (cases "glGetProgramiv drv p GL_LINK_STATUS w4")
    note q5 = glGetProgramiv_run[OF q]
    obtain lr w6 where lf0:
      "(if st = GL_FALSE then link_failed drv (program sh) w5 else (Inr (), w5)) = (lr, w6)"
      by (cases "if st = GL_FALSE then link_failed drv (program sh) w5 else (Inr (), w5)")
    note lf = lf0[unfolded psh]
    have w4': "glLinkProgram (program sh) (fold (glAttachShader (program sh)) ids w2) = w4"
      by (simp add: w4_def psh)
    have q': "glGetProgramiv drv (program sh) GL_LINK_STATUS w4 = (st, w5)"
      using q by (simp add: psh)
    have body0: "(r, w') =
       (case lr of Inl e \<Rightarrow> (Inl e, Shared_dtor sh w6)
        | Inr u \<Rightarrow> (let w7 = release_stages (program sh) ids w6
                    in case initUniforms drv sh w7 of
                         (Inl e, w8) \<Rightarrow> (Inl e, Shared_dtor sh w8)
                       | (Inr sh', w8) \<Rightarrow> (Inr \<lparr>share = sh'\<rparr>, w8)))"
      using run unfolding Shader_ctor_def sc Let_def prod.case sl Inr sum.case w4' q' lf0
      by (simp add: Let_def split: sum.splits)
    note body = body0[unfolded psh]
    have pre4: "calls w5 = calls w @ CreateProgram p # evs @ map (AttachShader p) ids @
                   [LinkProgram p, GetProgramiv p GL_LINK_STATUS st]"
      and b5: "boundProgram w5 = boundProgram w"
      using q5 c4 b4 evs c1 b1 by simp_all
    show ?thesis
    proof (cases lr)
      case (Inl e)
      with lf have stF: "st = GL_FALSE" and lfr: "link_failed drv p w5 = (Inl e, w6)"
        by (auto split: if_splits)
      from link_failed_run[OF lfr] obtain len lg where
        l: "boundProgram w6 = boundProgram w5"
           "1 \<le> sint len"
           "e = ShaderE_LinkError (takeWhile (\<lambda>c. c \<noteq> NUL) (take (nat (sint len) - 1) lg))"
           "calls w6 = calls w5 @ [GetProgramiv p GL_INFO_LOG_LENGTH len,
                                 GetProgramInfoLog p len (take (nat (sint len) - 1) lg @ [NUL])]"
        by (auto split: if_splits)
      from body Inl have res: "r = Inl e" "w' = emit (DeleteProgram p) w6"
        by (simp_all add: Shared_dtor_def glDeleteProgram_def psh)
      have ev: "events_since w w' = CreateProgram p # evs @
          map (AttachShader p) (List.map_filter created_handle evs) @
          [LinkProgram p, GetProgramiv p GL_LINK_STATUS GL_FALSE,
           GetProgramiv p GL_INFO_LOG_LENGTH len,
           GetProgramInfoLog p len (take (nat (sint len) - 1) lg @ [NUL]), DeleteProgram p]"
        by (rule events_since_append) (simp add: res l pre4 stF evs(5))
      show ?thesis
        by (rule link_abort[of evs len lg p]) (use evs res l b5 ev in simp_all)
    next
      case (Inr u)
      have "\<exists>len. calls w6 = calls w5 @
                 (if st = GL_FALSE then [GetProgramiv p GL_INFO_LOG_LENGTH len] else []) \<and>
               boundProgram w6 = boundProgram w5 \<and> (st = GL_FALSE \<longrightarrow> sint len < 1)"
      proof (cases "st = GL_FALSE")
        case False
        with lf show ?thesis by simp
      next
        case True
        with lf Inr have lfr: "link_failed drv p w5 = (Inr u, w6)" by simp
        from link_failed_run[OF lfr] obtain len where
          "boundProgram w6 = boundProgram w5" "\<not> 1 \<le> sint len"
          "calls w6 = calls w5 @ [GetProgramiv p GL_INFO_LOG_LENGTH len]"
          by (auto split: if_splits)
        with True show ?thesis by (intro exI[of _ len]) simp
      qed
      then obtain len where mid:
        "calls w6 = calls w5 @
           (if st = GL_FALSE then [GetProgramiv p GL_INFO_LOG_LENGTH len] else [])"
        "boundProgram w6 = boundProgram w5" "st = GL_FALSE \<longrightarrow> sint len < 1"
        by blast
      define w7 where "w7 = release_stages p ids w6"
      obtain ir w8 where iu: "initUniforms drv sh w7 = (ir, w8)"
        by (cases "initUniforms drv sh w7")
      have c7: "calls w7 = calls w6 @ release_calls p ids"
        and b7: "boundProgram w7 = boundProgram w6"
        by (simp_all add: w7_def release_stages_run)
      have pre7: "calls w7 = calls w @ CreateProgram p # evs @
          map (AttachShader p) (List.map_filter created_handle evs) @
          [LinkProgram p, GetProgramiv p GL_LINK_STATUS st] @
          (if st = GL_FALSE then [GetProgramiv p GL_INFO_LOG_LENGTH len] else []) @
          release_calls p (List.map_filter created_handle evs)"
        by (simp add: c7 mid pre4 evs(5))
      from initUniforms_run[OF iu] obtain n m where u:
        "boundProgram w8 = boundProgram w7"
        "if 1 \<le> sint m \<or> (0 \<le> sint m \<and> sint n \<le> 0)
         then \<exists>rs. length rs = nat (sint n) \<and>
             calls w8 = calls w7 @
               [GetProgramiv (program sh) GL_ACTIVE_UNIFORMS n,
                GetProgramiv (program sh) GL_ACTIVE_UNIFORM_MAX_LENGTH m] @
               concat (map (uniform_calls (program sh) m) (zip [0..<nat (sint n)] rs)) \<and>
             ir = Inr (sh\<lparr>uniforms := uniforms sh ++ map_of (rev (map uniform_entry rs))\<rparr>)
         else \<exists>sz ty. calls w8 = calls w7 @ failed_introspect_calls (program sh) n m sz ty \<and>
             ir = Inl (failed_introspect_abort m)"
        by blast
      show ?thesis
      proof (cases "1 \<le> sint m \<or> (0 \<le> sint m \<and> sint n \<le> 0)")
        case True
        with u(2) obtain rs where rs: "length rs = nat (sint n)"
          "calls w8 = calls w7 @
               [GetProgramiv p GL_ACTIVE_UNIFORMS n,
                GetProgramiv p GL_ACTIVE_UNIFORM_MAX_LENGTH m] @
               concat (map (uniform_calls p m) (zip [0..<nat (sint n)] rs))"
          "ir = Inr (sh\<lparr>uniforms := map_of (rev (map uniform_entry rs))\<rparr>)"
          by (auto simp: psh)
        from body Inr iu rs(3)
        have res: "r = Inr \<lparr>share = sh\<lparr>uniforms := map_of (rev (map uniform_entry rs))\<rparr>\<rparr>"
          "w' = w8"
          by (simp_all add: w7_def Let_def)
        have ev: "events_since w w' = CreateProgram p # evs @
          map (AttachShader p) (List.map_filter created_handle evs) @
          [LinkProgram p, GetProgramiv p GL_LINK_STATUS st] @
          (if st = GL_FALSE then [GetProgramiv p GL_INFO_LOG_LENGTH len] else []) @
          release_calls p (List.map_filter created_handle evs) @
          [GetProgramiv p GL_ACTIVE_UNIFORMS n, GetProgramiv p GL_ACTIVE_UNIFORM_MAX_LENGTH m] @
          concat (map (uniform_calls p m) (zip [0..<nat (sint n)] rs))"
          by (rule events_since_append) (simp add: res rs pre7)
        show ?thesis
          by (rule returned[of evs st len m n
                "\<lparr>share = sh\<lparr>uniforms := map_of (rev (map uniform_entry rs))\<rparr>\<rparr>" p rs])
             (use evs res u(1) b7 mid b5 psh ev True rs(1) in simp_all)
      next
        case False
        with u(2) obtain sz ty where f:
          "calls w8 = calls w7 @ failed_introspect_calls p n m sz ty"
          "ir = Inl (failed_introspect_abort m)"
          by (auto simp: psh)
        from body Inr iu f(2)
        have res: "r = Inl (failed_introspect_abort m)" "w' = emit (DeleteProgram p) w8"
          by (simp_all add: w7_def Let_def Shared_dtor_def glDeleteProgram_def psh)
        have ev: "events_since w w' = CreateProgram p # evs @
          map (AttachShader p) (List.map_filter created_handle evs) @
          [LinkProgram p, GetProgramiv p GL_LINK_STATUS st] @
          (if st = GL_FALSE then [GetProgramiv p GL_INFO_LOG_LENGTH len] else []) @
          release_calls p (List.map_filter created_handle evs) @
          failed_introspect_calls p n m sz ty @ [DeleteProgram p]"
          by (rule events_since_append) (simp add: res f pre7)
        show ?thesis
          by (rule introspect_abort[of evs st len m n p sz ty])
             (use evs res u(1) b7 mid b5 ev False in simp_all)
      qed
    qed
  qed
qed

text \<open>The constructor never writes \<open>boundProgram\<close>.\<close>

lemma Shader_ctor_keeps_boundProgram:
  "Shader_ctor drv source w = (r, w') \<Longrightarrow> boundProgram w' = boundProgram w"
  by (cases rule: Shader_ctor_cases) simp_all

section \<open>Runs on the sample drivers\<close>

lemmas run_defs =
  Shader_ctor_def Shared_ctor_def Shared_dtor_def glCreateProgram_def glDeleteProgram_def
  glCreateShader_def compile_def glShaderSource_def glCompileShader_def glGetShaderiv_def
  glGetShaderInfoLog_def glAttachShader_def glLinkProgram_def glGetProgramiv_def
  glGetProgramInfoLog_def link_failed_def glDetachShader_def glDeleteShader_def
  initUniforms_def glGetActiveUniform_def glGetUniformLocation_def
  info_log_chars_def store_chars_def c_string_def vector_GLchar_def
  name_chars_def store_raw_def new_GLchar_def
  GL_FALSE_def GL_ACTIVE_UNIFORMS_def GL_ACTIVE_UNIFORM_MAX_LENGTH_def GL_LINK_STATUS_def
  GL_COMPILE_STATUS_def GL_INFO_LOG_LENGTH_def GL_VERTEX_SHADER_def GL_FRAGMENT_SHADER_def
  shaderTypes_def NUL_def Let_def emit_def initial_world_def upt_rec
  sample_driver_def sample_source_def

lemma sample_run:
  "Shader_ctor sample_driver sample_source initial_world =
     (Inr \<lparr>share = \<lparr>program = 1, uniforms =
         [''u_color'' \<mapsto> \<lparr>size = 1, type = 0x8B52, location = 0\<rparr>,
          ''u_mvp'' \<mapsto> \<lparr>size = 1, type = 0x8B5C, location = 1\<rparr>]\<rparr>\<rparr>,
      \<lparr>calls = [CreateProgram 1,
         CreateShader GL_VERTEX_SHADER 2, ShaderSource 2 ''v'', CompileShader 2,
         GetShaderiv 2 GL_COMPILE_STATUS 1,
         CreateShader GL_FRAGMENT_SHADER 6, ShaderSource 6 ''f'', CompileShader 6,
         GetShaderiv 6 GL_COMPILE_STATUS 1,
         AttachShader 1 2, AttachShader 1 6, LinkProgram 1,
         GetProgramiv 1 GL_LINK_STATUS 1,
         DetachShader 1 2, DeleteShader 2, DetachShader 1 6, DeleteShader 6,
         GetProgramiv 1 GL_ACTIVE_UNIFORMS 2, GetProgramiv 1 GL_ACTIVE_UNIFORM_MAX_LENGTH 8,
         GetActiveUniform 1 0 8 (''u_color'' @ [NUL], 1, 0x8B52), GetUniformLocation 1 ''u_color'' 0,
         GetActiveUniform 1 1 8 (''u_mvp'' @ [NUL], 1, 0x8B5C), GetUniformLocation 1 ''u_mvp'' 1],
       boundProgram = (\<lambda>t. 0)\<rparr>)"
  by (simp add: run_defs)

lemma link_failing_run:
  "Shader_ctor link_failing_driver sample_source initial_world =
     (Inl (ShaderE_LinkError ''oops''),
      \<lparr>calls = [CreateProgram 1,
         CreateShader GL_VERTEX_SHADER 2, ShaderSource 2 ''v'', CompileShader 2,
         GetShaderiv 2 GL_COMPILE_STATUS 1,
         CreateShader GL_FRAGMENT_SHADER 6, ShaderSource 6 ''f'', CompileShader 6,
         GetShaderiv 6 GL_COMPILE_STATUS 1,
         AttachShader 1 2, AttachShader 1 6, LinkProgram 1,
         GetProgramiv 1 GL_LINK_STATUS 0, GetProgramiv 1 GL_INFO_LOG_LENGTH 5,
         GetProgramInfoLog 1 5 (''oops'' @ [NUL]), DeleteProgram 1],
       boundProgram = (\<lambda>t. 0)\<rparr>)"
  by (simp add: run_defs link_failing_driver_def)

lemma compile_failing_run:
  "Shader_ctor compile_failing_driver sample_source initial_world =
     (Inl (ShaderE_CompileError ''v'' ''bad''),
      \<lparr>calls = [CreateProgram 1,
         CreateShader GL_VERTEX_SHADER 2, ShaderSource 2 ''v'', CompileShader 2,
         GetShaderiv 2 GL_COMPILE_STATUS 0, GetShaderiv 2 GL_INFO_LOG_LENGTH 4,
         GetShaderInfoLog 2 1024 (''bad'' @ [NUL]), DeleteProgram 1],
       boundProgram = (\<lambda>t. 0)\<rparr>)"
  by (simp add: run_defs compile_failing_driver_def)

lemma nolog_run:
  "Shader_ctor nolog_driver sample_source initial_world =
     (Inl BufferOverrun,
      \<lparr>calls = [CreateProgram 1,
         CreateShader GL_VERTEX_SHADER 2, ShaderSource 2 ''v'', CompileShader 2,
         GetShaderiv 2 GL_COMPILE_STATUS 0, GetShaderiv 2 GL_INFO_LOG_LENGTH 0,
         GetShaderInfoLog 2 1024 [NUL], DeleteProgram 1],
       boundProgram = (\<lambda>t. 0)\<rparr>)"
  by (simp add: run_defs nolog_driver_def)

lemma silent_link_run:
  "Shader_ctor silent_link_driver sample_source initial_world =
     (Inr \<lparr>share = \<lparr>program = 1, uniforms =
         [''u_color'' \<mapsto> \<lparr>size = 1, type = 0x8B52, location = 0\<rparr>,
          ''u_mvp'' \<mapsto> \<lparr>size = 1, type = 0x8B5C, location = 1\<rparr>]\<rparr>\<rparr>,
      \<lparr>calls = [CreateProgram 1,
         CreateShader GL_VERTEX_SHADER 2, ShaderSource 2 ''v'', CompileShader 2,
         GetShaderiv 2 GL_COMPILE_STATUS 1,
         CreateShader GL_FRAGMENT_SHADER 6, ShaderSource 6 ''f'', CompileShader 6,
         GetShaderiv 6 GL_COMPILE_STATUS 1,
         AttachShader 1 2, AttachShader 1 6, LinkProgram 1,
         GetProgramiv 1 GL_LINK_STATUS 0, GetProgramiv 1 GL_INFO_LOG_LENGTH 0,
         DetachShader 1 2, DeleteShader 2, DetachShader 1 6, DeleteShader 6,
         GetProgramiv 1 GL_ACTIVE_UNIFORMS 2, GetProgramiv 1 GL_ACTIVE_UNIFORM_MAX_LENGTH 8,
         GetActiveUniform 1 0 8 (''u_color'' @ [NUL], 1, 0x8B52),
         GetUniformLocation 1 ''u_color'' 0,
         GetActiveUniform 1 1 8 (''u_mvp'' @ [NUL], 1, 0x8B5C),
         GetUniformLocation 1 ''u_mvp'' 1],
       boundProgram = (\<lambda>t. 0)\<rparr>)"
  by (simp add: run_defs silent_link_driver_def)

lemma compile_sample_run:
  "compile compile_failing_driver 2 ''v'' initial_world =
     (Inl (ShaderE_CompileError ''v'' ''bad''),
      \<lparr>calls = [ShaderSource 2 ''v'', CompileShader 2,
         GetShaderiv 2 GL_COMPILE_STATUS 0, GetShaderiv 2 GL_INFO_LOG_LENGTH 4,
         GetShaderInfoLog 2 1024 (''bad'' @ [NUL])],
       boundProgram = (\<lambda>t. 0)\<rparr>)"
  by (simp add: run_defs compile_failing_driver_def)

lemma initUniforms_sample_run:
  "initUniforms sample_driver (share sample_shader) initial_world =
     (Inr \<lparr>program = 7, uniforms =
         [''u_color'' \<mapsto> \<lparr>size = 1, type = 0x8B52, location = 0\<rparr>,
          ''u_mvp'' \<mapsto> \<lparr>size = 1, type = 0x8B5C, location = 1\<rparr>]\<rparr>,
      \<lparr>calls = [GetProgramiv 7 GL_ACTIVE_UNIFORMS 2, GetProgramiv 7 GL_ACTIVE_UNIFORM_MAX_LENGTH 8,
         GetActiveUniform 7 0 8 (''u_color'' @ [NUL], 1, 0x8B52), GetUniformLocation 7 ''u_color'' 0,
         GetActiveUniform 7 1 8 (''u_mvp'' @ [NUL], 1, 0x8B5C), GetUniformLocation 7 ''u_mvp'' 1],
       boundProgram = (\<lambda>t. 0)\<rparr>)"
  by (simp add: run_defs sample_shader_def)

lemma initUniforms_negative_run:
  "initUniforms negative_length_driver (share sample_shader) initial_world =
     (Inl AllocationFailure,
      \<lparr>calls = [GetProgramiv 7 GL_ACTIVE_UNIFORMS 2,
                GetProgramiv 7 GL_ACTIVE_UNIFORM_MAX_LENGTH (- 1)],
       boundProgram = (\<lambda>t. 0)\<rparr>)"
  by (simp add: run_defs sample_shader_def negative_length_driver_def)

lemma initUniforms_zero_run:
  "initUniforms zero_length_driver (share sample_shader) initial_world =
     (Inl BufferOverrun,
      \<lparr>calls = [GetProgramiv 7 GL_ACTIVE_UNIFORMS 2,
                GetProgramiv 7 GL_ACTIVE_UNIFORM_MAX_LENGTH 0,
                GetActiveUniform 7 0 0 ([], 1, 0x8B52)],
       boundProgram = (\<lambda>t. 0)\<rparr>)"
  by (simp add: run_defs sample_shader_def zero_length_driver_def)

section \<open>Compile failure\<close>

text \<open>
  C10. On a compile failure the info-log buffer has the length the driver reports, the
  driver stores the log there with a capacity of 1024, and the first element is read for
  the \<open>CompileError\<close>. A negative reported length ends in an allocation failure before
  any access. Otherwise the accesses stay inside the buffer exactly when the reported
  length is at least 1 and at least the number of characters stored, and then the
  \<open>CompileError\<close> is raised with the text stored.
\<close>

theorem compile_failure_log_buffer:
  assumes run: "compile drv s code w = (r, w')"
      and failed: "GetShaderiv s GL_COMPILE_STATUS GL_FALSE \<in> set (events_since w w')"
  shows "\<exists>len. GetShaderiv s GL_INFO_LOG_LENGTH len \<in> set (events_since w w') \<and>
           (sint len < 0 \<longrightarrow> r = Inl AllocationFailure) \<and>
           (0 \<le> sint len \<longrightarrow>
              (\<exists>cs. GetShaderInfoLog s 1024 cs \<in> set (events_since w w') \<and>
                 (r = Inl BufferOverrun \<longleftrightarrow> \<not> (1 \<le> sint len \<and> int (length cs) \<le> sint len)) \<and>
                 (r \<noteq> Inl BufferOverrun \<longrightarrow>
                    r = Inl (ShaderE_CompileError code (takeWhile (\<lambda>c. c \<noteq> NUL) cs)))))"
proof (cases r)
  case (Inr u)
  from compile_ok[OF run[unfolded Inr]] obtain st where "st \<noteq> GL_FALSE"
    "calls w' = calls w @ [ShaderSource s (takeWhile (\<lambda>c. c \<noteq> NUL) code), CompileShader s,
                           GetShaderiv s GL_COMPILE_STATUS st]"
    by blast
  with failed have False by (simp add: events_since_append)
  then show ?thesis ..
next
  case (Inl e)
  from compile_fail[OF run[unfolded Inl]] obtain len lg where
    f: "calls w' = calls w @ failed_compile_calls s code len lg"
       "e = failed_compile_abort code len lg"
    by blast
  have ev: "events_since w w' = failed_compile_calls s code len lg"
    by (rule events_since_append) (rule f)
  have tw: "takeWhile (\<lambda>c. c \<noteq> NUL) (take 1023 lg @ [NUL]) = takeWhile (\<lambda>c. c \<noteq> NUL) (take 1023 lg)"
    by (rule takeWhile_NUL_append)
  show ?thesis
  proof (rule exI[of _ len], intro conjI impI)
    show "GetShaderiv s GL_INFO_LOG_LENGTH len \<in> set (events_since w w')"
      by (simp add: ev failed_compile_calls_def)
    show "r = Inl AllocationFailure" if "sint len < 0"
      using that by (simp add: Inl f failed_compile_abort_def)
    show "\<exists>cs. GetShaderInfoLog s 1024 cs \<in> set (events_since w w') \<and>
            (r = Inl BufferOverrun \<longleftrightarrow> \<not> (1 \<le> sint len \<and> int (length cs) \<le> sint len)) \<and>
            (r \<noteq> Inl BufferOverrun \<longrightarrow>
               r = Inl (ShaderE_CompileError code (takeWhile (\<lambda>c. c \<noteq> NUL) cs)))"
      if "0 \<le> sint len"
      by (rule exI[of _ "take 1023 lg @ [NUL]"])
         (use that in \<open>auto simp: ev Inl f failed_compile_calls_def failed_compile_abort_def tw\<close>)
  qed
qed

theorem compile_failure_log_buffer_witness:
  "GetShaderiv 2 GL_COMPILE_STATUS GL_FALSE
     \<in> set (events_since initial_world (snd (compile compile_failing_driver 2 ''v'' initial_world)))
   \<and> (\<exists>len. GetShaderiv 2 GL_INFO_LOG_LENGTH len
         \<in> set (events_since initial_world (snd (compile compile_failing_driver 2 ''v'' initial_world))) \<and>
       (sint len < 0 \<longrightarrow> fst (compile compile_failing_driver 2 ''v'' initial_world) = Inl AllocationFailure) \<and>
       (0 \<le> sint len \<longrightarrow>
          (\<exists>cs. GetShaderInfoLog 2 1024 cs
              \<in> set (events_since initial_world (snd (compile compile_failing_driver 2 ''v'' initial_world))) \<and>
             (fst (compile compile_failing_driver 2 ''v'' initial_world) = Inl BufferOverrun
                \<longleftrightarrow> \<not> (1 \<le> sint len \<and> int (length cs) \<le> sint len)) \<and>
             (fst (compile compile_failing_driver 2 ''v'' initial_world) \<noteq> Inl BufferOverrun \<longrightarrow>
                fst (compile compile_failing_driver 2 ''v'' initial_world)
                  = Inl (ShaderE_CompileError ''v'' (takeWhile (\<lambda>c. c \<noteq> NUL) cs))))))"
proof -
  have run: "compile compile_failing_driver 2 ''v'' initial_world =
      (fst (compile compile_failing_driver 2 ''v'' initial_world),
       snd (compile compile_failing_driver 2 ''v'' initial_world))"
    by simp
  have failed: "GetShaderiv 2 GL_COMPILE_STATUS GL_FALSE
     \<in> set (events_since initial_world (snd (compile compile_failing_driver 2 ''v'' initial_world)))"
    unfolding compile_sample_run by (simp add: events_since_def initial_world_def GL_FALSE_def)
  from failed compile_failure_log_buffer[OF run failed] show ?thesis by (rule conjI)
qed

text \<open>
  When the compile-status query of a stage reports failure, the stage belongs to a
  non-empty slot, the log length and the log are fetched for it, and if the reported
  length is at least the number of characters stored, construction ends in a
  \<open>CompileError\<close> whose message is the header, the text fetched from the driver log up to
  its first zero character, the marker line and the source of the slot.
\<close>

lemma compile_failure_raises_CompileError:
  assumes run: "Shader_ctor drv source w = (r, w')"
      and failed: "GetShaderiv s GL_COMPILE_STATUS GL_FALSE \<in> set (events_since w w')"
  shows "\<exists>i len. i < 5 \<and> sources source i \<noteq> [] \<and>
           CreateShader (shaderTypes ! i) s \<in> set (events_since w w') \<and>
           GetShaderiv s GL_INFO_LOG_LENGTH len \<in> set (events_since w w') \<and>
           (0 \<le> sint len \<longrightarrow>
              (\<exists>cs. GetShaderInfoLog s 1024 cs \<in> set (events_since w w') \<and>
                 (int (length cs) \<le> sint len \<longrightarrow>
                    r = Inl (CompileError
                          (''Shader compile error:'' @ newline # takeWhile (\<lambda>c. c \<noteq> NUL) cs @
                           newline # ''    -- SHADER CODE --'' @ newline # sources source i)))))"
  using run
proof (cases rule: Shader_ctor_cases)
  case (compile_abort p pre i s' len lg)
  have s: "s' = s"
    using failed compile_abort(5,9)
    by (auto simp: failed_compile_calls_def dest: no_compile_failure_mem split: if_splits)
  have tw: "takeWhile (\<lambda>c. c \<noteq> NUL) (take 1023 lg @ [NUL]) = takeWhile (\<lambda>c. c \<noteq> NUL) (take 1023 lg)"
    by (rule takeWhile_NUL_append)
  show ?thesis
  proof (rule exI[of _ i], rule exI[of _ len], intro conjI impI)
    show "i < 5" "sources source i \<noteq> []" by fact+
    show "CreateShader (shaderTypes ! i) s \<in> set (events_since w w')"
      by (simp add: compile_abort(9) s)
    show "GetShaderiv s GL_INFO_LOG_LENGTH len \<in> set (events_since w w')"
      by (simp add: compile_abort(9) s failed_compile_calls_def)
    show "\<exists>cs. GetShaderInfoLog s 1024 cs \<in> set (events_since w w') \<and>
            (int (length cs) \<le> sint len \<longrightarrow>
               r = Inl (CompileError
                     (''Shader compile error:'' @ newline # takeWhile (\<lambda>c. c \<noteq> NUL) cs @
                      newline # ''    -- SHADER CODE --'' @ newline # sources source i)))"
      if "0 \<le> sint len"
      by (rule exI[of _ "take 1023 lg @ [NUL]"])
         (use that compile_abort(3) in
           \<open>auto simp: compile_abort(8,9) s failed_compile_calls_def failed_compile_abort_def tw
              ShaderE_CompileError_def\<close>)
  qed
next
  case (link_abort p evs len lg)
  from failed link_abort(3,8) have False
    by (simp add: no_compile_failure_mem)
  then show ?thesis ..
next
  case (introspect_abort p evs st len n m sz ty)
  from failed introspect_abort(3,9) have False
    by (simp add: no_compile_failure_mem split: if_splits)
  then show ?thesis ..
next
  case (returned p evs st len sh n m rs)
  from failed returned(3,12) have False
    by (simp add: no_compile_failure_mem split: if_splits)
  then show ?thesis ..
qed

text \<open>
  C3 fails on the code. On \<open>nolog_driver\<close> the compile of the vertex stage fails and the
  driver, which has no log for it, reports a log length of 0. The code allocates a buffer
  of that length and still has the log fetched into it with a capacity of 1024: the
  terminating zero is stored outside the empty buffer, and no \<open>CompileError\<close> with the
  source and a diagnostic is built from it. The link check of the same constructor
  fetches its log only for a length of at least 1 and with that length as capacity.
\<close>

theorem compile_failure_without_log:
  "GetShaderiv 2 GL_COMPILE_STATUS GL_FALSE
     \<in> set (calls (snd (Shader_ctor nolog_driver sample_source initial_world)))
   \<and> GetShaderiv 2 GL_INFO_LOG_LENGTH 0
     \<in> set (calls (snd (Shader_ctor nolog_driver sample_source initial_world)))
   \<and> GetShaderInfoLog 2 1024 [NUL]
     \<in> set (calls (snd (Shader_ctor nolog_driver sample_source initial_world)))
   \<and> fst (Shader_ctor nolog_driver sample_source initial_world) = Inl BufferOverrun
   \<and> \<not> (\<exists>msg. fst (Shader_ctor nolog_driver sample_source initial_world)
                 = Inl (CompileError msg))"
  unfolding nolog_run
  by (simp add: GL_FALSE_def)


section \<open>Release of the stage handles\<close>

lemma stage_calls_no_release:
  assumes "list_all stage_call evs"
  shows "List.map_filter attached_handle evs = []"
    and "List.map_filter detached_handle evs = []"
    and "List.map_filter deleted_handle evs = []"
proof -
  have "attached_handle c = None \<and> detached_handle c = None \<and> deleted_handle c = None"
    if "c \<in> set evs" for c
    using stage_call_mem[OF assms that] by (cases c) simp_all
  then show "List.map_filter attached_handle evs = []"
    "List.map_filter detached_handle evs = []" "List.map_filter deleted_handle evs = []"
    by (simp_all add: map_filter_empty)
qed

lemma attach_calls_handles:
  "List.map_filter attached_handle (map (AttachShader p) ids) = ids"
  "List.map_filter detached_handle (map (AttachShader p) ids) = []"
  "List.map_filter deleted_handle (map (AttachShader p) ids) = []"
  by (induction ids) (simp_all add: List.map_filter_simps)

lemma release_calls_handles:
  "List.map_filter attached_handle (release_calls p ids) = []"
  "List.map_filter detached_handle (release_calls p ids) = ids"
  "List.map_filter deleted_handle (release_calls p ids) = ids"
  by (induction ids) (simp_all add: release_calls_def List.map_filter_simps)

lemma uniform_calls_no_release:
  "List.map_filter attached_handle (concat (map (uniform_calls p m) zs)) = []"
  "List.map_filter detached_handle (concat (map (uniform_calls p m) zs)) = []"
  "List.map_filter deleted_handle (concat (map (uniform_calls p m) zs)) = []"
  by (induction zs) (auto simp: uniform_calls_def List.map_filter_simps map_filter_append)

lemma failed_introspect_calls_no_release:
  "List.map_filter attached_handle (failed_introspect_calls p n m sz ty) = []"
  "List.map_filter detached_handle (failed_introspect_calls p n m sz ty) = []"
  "List.map_filter deleted_handle (failed_introspect_calls p n m sz ty) = []"
  by (simp_all add: failed_introspect_calls_def List.map_filter_simps)

text \<open>
  A construction that returns has detached and deleted, in order, the handles it
  attached.
\<close>

lemma returned_releases_stages:
  assumes run: "Shader_ctor drv source w = (Inr sh, w')"
  shows "List.map_filter detached_handle (events_since w w')
           = List.map_filter attached_handle (events_since w w')
       \<and> List.map_filter deleted_handle (events_since w w')
           = List.map_filter attached_handle (events_since w w')"
  using run
proof (cases rule: Shader_ctor_cases)
  case (returned p evs st len sh' n m rs)
  show ?thesis
    unfolding returned(12)
    by (simp add: map_filter_append List.map_filter_simps stage_calls_no_release[OF returned(2)]
        attach_calls_handles release_calls_handles uniform_calls_no_release)
qed simp_all

text \<open>
  So has every construction that reaches the uniform queries, whether or not the table is
  then read to the end.
\<close>

lemma introspect_abort_releases_stages:
  assumes run: "Shader_ctor drv source w = (r, w')"
      and reached: "GetProgramiv p GL_ACTIVE_UNIFORMS n \<in> set (events_since w w')"
  shows "List.map_filter detached_handle (events_since w w')
           = List.map_filter attached_handle (events_since w w')
       \<and> List.map_filter deleted_handle (events_since w w')
           = List.map_filter attached_handle (events_since w w')"
  using run
proof (cases rule: Shader_ctor_cases)
  case (compile_abort p0 pre i s len lg)
  from reached compile_abort(4,9) have False by simp
  then show ?thesis ..
next
  case (link_abort p0 evs len lg)
  from reached link_abort(2,8) have False by simp
  then show ?thesis ..
next
  case (introspect_abort p0 evs st len n0 m sz ty)
  show ?thesis
    unfolding introspect_abort(9)
    by (simp add: map_filter_append List.map_filter_simps
        stage_calls_no_release[OF introspect_abort(2)]
        attach_calls_handles release_calls_handles failed_introspect_calls_no_release)
next
  case (returned p0 evs st len sh n0 m rs)
  show ?thesis
    unfolding returned(12)
    by (simp add: map_filter_append List.map_filter_simps stage_calls_no_release[OF returned(2)]
        attach_calls_handles release_calls_handles uniform_calls_no_release)
qed

text \<open>
  A construction that ends in a \<open>LinkError\<close> has attached every stage it created and
  has neither detached nor deleted any of them.
\<close>

lemma link_error_releases_nothing:
  assumes run: "Shader_ctor drv source w = (Inl (LinkError msg), w')"
  shows "List.map_filter attached_handle (events_since w w')
           = List.map_filter created_handle (events_since w w')
       \<and> List.map_filter detached_handle (events_since w w') = []
       \<and> List.map_filter deleted_handle (events_since w w') = []"
  using run
proof (cases rule: Shader_ctor_cases)
  case (compile_abort p pre i s len lg)
  from compile_abort(8) have False
    by (simp add: failed_compile_abort_def split: if_splits)
  then show ?thesis ..
next
  case (link_abort p evs len lg)
  have "List.map_filter created_handle (map (AttachShader p) ids) = []" for ids
    by (induction ids) (simp_all add: List.map_filter_simps)
  then show ?thesis
    unfolding link_abort(8)
    by (simp add: map_filter_append List.map_filter_simps stage_calls_no_release[OF link_abort(2)]
        attach_calls_handles)
qed simp_all

section \<open>Link failure\<close>

text \<open>
  C2. When the link-status query of a construction reports \<open>GL_FALSE\<close>, the log length
  is queried, and a \<open>LinkError\<close> is raised if and only if that length is at least 1; its
  message is the header followed by the log the driver stored, up to its first zero
  character. With a length below 1 no \<open>LinkError\<close> is raised and construction goes on as
  after a successful link: the attached handles are detached and deleted and the
  uniforms are read, and the \<open>Shader\<close> for the program is returned unless reading the
  uniforms itself ends in the allocation of the name array or in a read outside it.
\<close>

theorem link_error_iff_log_length:
  assumes run: "Shader_ctor drv source w = (r, w')"
      and status: "GetProgramiv p GL_LINK_STATUS GL_FALSE \<in> set (events_since w w')"
  shows "(\<exists>len. GetProgramiv p GL_INFO_LOG_LENGTH len \<in> set (events_since w w') \<and>
          ((\<exists>msg. r = Inl (LinkError msg)) \<longleftrightarrow> 1 \<le> sint len) \<and>
          (1 \<le> sint len \<longrightarrow>
             (\<exists>cs. GetProgramInfoLog p len cs \<in> set (events_since w w') \<and>
                   r = Inl (LinkError (''Shader link error:'' @ newline #
                                       takeWhile (\<lambda>c. c \<noteq> NUL) cs)))) \<and>
          (sint len < 1 \<longrightarrow>
             List.map_filter detached_handle (events_since w w') = List.map_filter attached_handle (events_since w w') \<and>
             List.map_filter deleted_handle (events_since w w') = List.map_filter attached_handle (events_since w w') \<and>
             (\<exists>n m. GetProgramiv p GL_ACTIVE_UNIFORMS n \<in> set (events_since w w') \<and>
                    GetProgramiv p GL_ACTIVE_UNIFORM_MAX_LENGTH m \<in> set (events_since w w') \<and>
                    (if sint m < 0 then r = Inl AllocationFailure
                     else if sint m < 1 \<and> 1 \<le> sint n then r = Inl BufferOverrun
                     else \<exists>sh. r = Inr sh \<and> program (share sh) = p))))"
  using run
proof (cases rule: Shader_ctor_cases)
  case (compile_abort p0 pre i s len lg)
  from status compile_abort(4,9) have False
    by simp
  then show ?thesis ..
next
  case (link_abort p0 evs len lg)
  from status link_abort(2,8) have p: "p = p0"
    by simp
  have tw: "takeWhile (\<lambda>c. c \<noteq> NUL) (take (nat (sint len) - 1) lg @ [NUL]) =
            takeWhile (\<lambda>c. c \<noteq> NUL) (take (nat (sint len) - 1) lg)"
    by (rule takeWhile_NUL_append)
  show ?thesis
  proof (rule exI[of _ len], intro conjI)
    show "GetProgramiv p GL_INFO_LOG_LENGTH len \<in> set (events_since w w')"
      by (simp add: link_abort(8) p)
    show "(\<exists>msg. r = Inl (LinkError msg)) \<longleftrightarrow> 1 \<le> sint len"
      using link_abort(6,7) by (simp add: ShaderE_LinkError_def)
    show "1 \<le> sint len \<longrightarrow>
            (\<exists>cs. GetProgramInfoLog p len cs \<in> set (events_since w w') \<and>
                  r = Inl (LinkError (''Shader link error:'' @ newline #
                                      takeWhile (\<lambda>c. c \<noteq> NUL) cs)))"
      by (rule impI, rule exI[of _ "take (nat (sint len) - 1) lg @ [NUL]"])
         (simp only: link_abort(7,8) p tw ShaderE_LinkError_def, simp)
  qed (use link_abort(6) in simp)
next
  case (introspect_abort p0 evs st len n m sz ty)
  from status introspect_abort(2,9) have p: "p = p0" and st: "st = GL_FALSE"
    by (simp_all add: failed_introspect_calls_def split: if_splits)
  from introspect_abort(6)[OF st] have len: "sint len < 1" .
  have reached: "GetProgramiv p GL_ACTIVE_UNIFORMS n \<in> set (events_since w w')"
    by (simp add: introspect_abort(9) p failed_introspect_calls_def)
  note rel = introspect_abort_releases_stages[OF run reached]
  show ?thesis
  proof (rule exI[of _ len], intro conjI)
    show "GetProgramiv p GL_INFO_LOG_LENGTH len \<in> set (events_since w w')"
      by (simp add: introspect_abort(9) p st)
    show "(\<exists>msg. r = Inl (LinkError msg)) \<longleftrightarrow> 1 \<le> sint len"
      using len introspect_abort(8) by simp
    show "1 \<le> sint len \<longrightarrow>
            (\<exists>cs. GetProgramInfoLog p len cs \<in> set (events_since w w') \<and>
                  r = Inl (LinkError (''Shader link error:'' @ newline #
                                      takeWhile (\<lambda>c. c \<noteq> NUL) cs)))"
      using len by simp
    show "sint len < 1 \<longrightarrow>
             List.map_filter detached_handle (events_since w w')
               = List.map_filter attached_handle (events_since w w') \<and>
             List.map_filter deleted_handle (events_since w w')
               = List.map_filter attached_handle (events_since w w') \<and>
             (\<exists>n m. GetProgramiv p GL_ACTIVE_UNIFORMS n \<in> set (events_since w w') \<and>
                    GetProgramiv p GL_ACTIVE_UNIFORM_MAX_LENGTH m \<in> set (events_since w w') \<and>
                    (if sint m < 0 then r = Inl AllocationFailure
                     else if sint m < 1 \<and> 1 \<le> sint n then r = Inl BufferOverrun
                     else \<exists>sh. r = Inr sh \<and> program (share sh) = p))"
    proof (intro impI conjI)
      show "\<exists>n m. GetProgramiv p GL_ACTIVE_UNIFORMS n \<in> set (events_since w w') \<and>
                    GetProgramiv p GL_ACTIVE_UNIFORM_MAX_LENGTH m \<in> set (events_since w w') \<and>
                    (if sint m < 0 then r = Inl AllocationFailure
                     else if sint m < 1 \<and> 1 \<le> sint n then r = Inl BufferOverrun
                     else \<exists>sh. r = Inr sh \<and> program (share sh) = p)"
        by (rule exI[of _ n], rule exI[of _ m])
           (use introspect_abort(7,8) reached in
             \<open>auto simp: introspect_abort(9) p failed_introspect_calls_def
                failed_introspect_abort_def\<close>)
    qed (use rel in simp_all)
  qed
next
  case (returned p0 evs st len sh n m rs)
  from status returned(2,12) have p: "p = p0" and st: "st = GL_FALSE"
    by (simp_all split: if_splits)
  from returned(6)[OF st] have len: "sint len < 1" .
  have reached: "GetProgramiv p GL_ACTIVE_UNIFORMS n \<in> set (events_since w w')"
    by (simp add: returned(12) p)
  note rel = introspect_abort_releases_stages[OF run reached]
  show ?thesis
  proof (rule exI[of _ len], intro conjI)
    show "GetProgramiv p GL_INFO_LOG_LENGTH len \<in> set (events_since w w')"
      by (simp add: returned(12) p st)
    show "(\<exists>msg. r = Inl (LinkError msg)) \<longleftrightarrow> 1 \<le> sint len"
      using len returned(8) by simp
    show "1 \<le> sint len \<longrightarrow>
            (\<exists>cs. GetProgramInfoLog p len cs \<in> set (events_since w w') \<and>
                  r = Inl (LinkError (''Shader link error:'' @ newline #
                                      takeWhile (\<lambda>c. c \<noteq> NUL) cs)))"
      using len by simp
    show "sint len < 1 \<longrightarrow>
             List.map_filter detached_handle (events_since w w')
               = List.map_filter attached_handle (events_since w w') \<and>
             List.map_filter deleted_handle (events_since w w')
               = List.map_filter attached_handle (events_since w w') \<and>
             (\<exists>n m. GetProgramiv p GL_ACTIVE_UNIFORMS n \<in> set (events_since w w') \<and>
                    GetProgramiv p GL_ACTIVE_UNIFORM_MAX_LENGTH m \<in> set (events_since w w') \<and>
                    (if sint m < 0 then r = Inl AllocationFailure
                     else if sint m < 1 \<and> 1 \<le> sint n then r = Inl BufferOverrun
                     else \<exists>sh. r = Inr sh \<and> program (share sh) = p))"
    proof (intro impI conjI)
      show "\<exists>n m. GetProgramiv p GL_ACTIVE_UNIFORMS n \<in> set (events_since w w') \<and>
                    GetProgramiv p GL_ACTIVE_UNIFORM_MAX_LENGTH m \<in> set (events_since w w') \<and>
                    (if sint m < 0 then r = Inl AllocationFailure
                     else if sint m < 1 \<and> 1 \<le> sint n then r = Inl BufferOverrun
                     else \<exists>sh. r = Inr sh \<and> program (share sh) = p)"
        by (rule exI[of _ n], rule exI[of _ m])
           (use returned(7,8,9) reached in \<open>auto simp: returned(12) p\<close>)
    qed (use rel in simp_all)
  qed
qed

theorem link_error_iff_log_length_witness:
  "GetProgramiv 1 GL_LINK_STATUS GL_FALSE
     \<in> set (events_since initial_world (snd (Shader_ctor link_failing_driver sample_source initial_world)))
   \<and> fst (Shader_ctor link_failing_driver sample_source initial_world)
       = Inl (LinkError (''Shader link error:'' @ newline # ''oops''))
   \<and> GetProgramiv 1 GL_LINK_STATUS GL_FALSE
     \<in> set (events_since initial_world (snd (Shader_ctor silent_link_driver sample_source initial_world)))
   \<and> GetProgramiv 1 GL_INFO_LOG_LENGTH 0
     \<in> set (events_since initial_world (snd (Shader_ctor silent_link_driver sample_source initial_world)))
   \<and> List.map_filter deleted_handle
       (events_since initial_world (snd (Shader_ctor silent_link_driver sample_source initial_world))) = [2, 6]
   \<and> (\<exists>sh. fst (Shader_ctor silent_link_driver sample_source initial_world) = Inr sh \<and> program (share sh) = 1)"
proof -
  let ?evs1 = "events_since initial_world (snd (Shader_ctor link_failing_driver sample_source initial_world))"
  let ?evs2 = "events_since initial_world (snd (Shader_ctor silent_link_driver sample_source initial_world))"
  have evs1: "?evs1 = [CreateProgram 1,
         CreateShader GL_VERTEX_SHADER 2, ShaderSource 2 ''v'', CompileShader 2,
         GetShaderiv 2 GL_COMPILE_STATUS 1,
         CreateShader GL_FRAGMENT_SHADER 6, ShaderSource 6 ''f'', CompileShader 6,
         GetShaderiv 6 GL_COMPILE_STATUS 1,
         AttachShader 1 2, AttachShader 1 6, LinkProgram 1,
         GetProgramiv 1 GL_LINK_STATUS 0, GetProgramiv 1 GL_INFO_LOG_LENGTH 5,
         GetProgramInfoLog 1 5 (''oops'' @ [NUL]), DeleteProgram 1]"
    unfolding link_failing_run by (simp add: events_since_def initial_world_def)
  have evs2: "?evs2 = [CreateProgram 1,
         CreateShader GL_VERTEX_SHADER 2, ShaderSource 2 ''v'', CompileShader 2,
         GetShaderiv 2 GL_COMPILE_STATUS 1,
         CreateShader GL_FRAGMENT_SHADER 6, ShaderSource 6 ''f'', CompileShader 6,
         GetShaderiv 6 GL_COMPILE_STATUS 1,
         AttachShader 1 2, AttachShader 1 6, LinkProgram 1,
         GetProgramiv 1 GL_LINK_STATUS 0, GetProgramiv 1 GL_INFO_LOG_LENGTH 0,
         DetachShader 1 2, DeleteShader 2, DetachShader 1 6, DeleteShader 6,
         GetProgramiv 1 GL_ACTIVE_UNIFORMS 2, GetProgramiv 1 GL_ACTIVE_UNIFORM_MAX_LENGTH 8,
         GetActiveUniform 1 0 8 (''u_color'' @ [NUL], 1, 0x8B52),
         GetUniformLocation 1 ''u_color'' 0,
         GetActiveUniform 1 1 8 (''u_mvp'' @ [NUL], 1, 0x8B5C),
         GetUniformLocation 1 ''u_mvp'' 1]"
    unfolding silent_link_run by (simp add: events_since_def initial_world_def)
  note pnames = GL_LINK_STATUS_def GL_INFO_LOG_LENGTH_def GL_ACTIVE_UNIFORMS_def
    GL_ACTIVE_UNIFORM_MAX_LENGTH_def
  have run1: "Shader_ctor link_failing_driver sample_source initial_world = (fst (Shader_ctor link_failing_driver sample_source initial_world), snd (Shader_ctor link_failing_driver sample_source initial_world))"
    by simp
  have status1: "GetProgramiv 1 GL_LINK_STATUS GL_FALSE \<in> set ?evs1"
    unfolding evs1 by (simp add: GL_FALSE_def)
  from link_error_iff_log_length[OF run1 status1] obtain len where
    len: "GetProgramiv 1 GL_INFO_LOG_LENGTH len \<in> set ?evs1"
    and raised: "1 \<le> sint len \<longrightarrow>
             (\<exists>cs. GetProgramInfoLog 1 len cs \<in> set ?evs1 \<and>
                   fst (Shader_ctor link_failing_driver sample_source initial_world) = Inl (LinkError (''Shader link error:'' @ newline #
                                       takeWhile (\<lambda>c. c \<noteq> NUL) cs)))"
    by blast
  from len have "len = 5" unfolding evs1 by (simp add: pnames)
  with raised obtain cs where cs: "GetProgramInfoLog 1 5 cs \<in> set ?evs1"
    "fst (Shader_ctor link_failing_driver sample_source initial_world) = Inl (LinkError (''Shader link error:'' @ newline #
                                       takeWhile (\<lambda>c. c \<noteq> NUL) cs))"
    by auto
  from cs(1) have "cs = ''oops'' @ [NUL]" unfolding evs1 by simp
  with cs(2) have msg: "fst (Shader_ctor link_failing_driver sample_source initial_world)
       = Inl (LinkError (''Shader link error:'' @ newline # ''oops''))"
    by (simp add: NUL_def)
  have run2: "Shader_ctor silent_link_driver sample_source initial_world = (fst (Shader_ctor silent_link_driver sample_source initial_world), snd (Shader_ctor silent_link_driver sample_source initial_world))"
    by simp
  have status2: "GetProgramiv 1 GL_LINK_STATUS GL_FALSE \<in> set ?evs2"
    unfolding evs2 by (simp add: GL_FALSE_def)
  from link_error_iff_log_length[OF run2 status2] obtain len2 where
    len2: "GetProgramiv 1 GL_INFO_LOG_LENGTH len2 \<in> set ?evs2"
    and silent: "sint len2 < 1 \<longrightarrow>
             List.map_filter detached_handle ?evs2 = List.map_filter attached_handle ?evs2 \<and>
             List.map_filter deleted_handle ?evs2 = List.map_filter attached_handle ?evs2 \<and>
             (\<exists>n m. GetProgramiv 1 GL_ACTIVE_UNIFORMS n \<in> set ?evs2 \<and>
                    GetProgramiv 1 GL_ACTIVE_UNIFORM_MAX_LENGTH m \<in> set ?evs2 \<and>
                    (if sint m < 0 then fst (Shader_ctor silent_link_driver sample_source initial_world) = Inl AllocationFailure
                     else if sint m < 1 \<and> 1 \<le> sint n then fst (Shader_ctor silent_link_driver sample_source initial_world) = Inl BufferOverrun
                     else \<exists>sh. fst (Shader_ctor silent_link_driver sample_source initial_world) = Inr sh \<and> program (share sh) = 1))"
    by blast
  from len2 have zero: "len2 = 0" unfolding evs2 by (simp add: pnames)
  have attached: "List.map_filter attached_handle ?evs2 = [2, 6]"
    unfolding evs2 by (simp add: List.map_filter_simps)
  from silent zero attached have deleted: "List.map_filter deleted_handle ?evs2 = [2, 6]"
    by simp
  from silent zero obtain n m where
    nm: "GetProgramiv 1 GL_ACTIVE_UNIFORMS n \<in> set ?evs2"
        "GetProgramiv 1 GL_ACTIVE_UNIFORM_MAX_LENGTH m \<in> set ?evs2"
        "if sint m < 0 then fst (Shader_ctor silent_link_driver sample_source initial_world) = Inl AllocationFailure
         else if sint m < 1 \<and> 1 \<le> sint n then fst (Shader_ctor silent_link_driver sample_source initial_world) = Inl BufferOverrun
         else \<exists>sh. fst (Shader_ctor silent_link_driver sample_source initial_world) = Inr sh \<and> program (share sh) = 1"
    by auto
  from nm(2) have "m = 8" unfolding evs2 by (simp add: pnames)
  with nm(3) have ret: "\<exists>sh. fst (Shader_ctor silent_link_driver sample_source initial_world) = Inr sh \<and> program (share sh) = 1"
    by simp
  from len2 zero have q: "GetProgramiv 1 GL_INFO_LOG_LENGTH 0 \<in> set ?evs2" by simp
  from status1 msg status2 q deleted ret show ?thesis by (intro conjI)
qed

section \<open>The link error and the stage handles\<close>

text \<open>
  C1 fails on the code. On \<open>link_failing_driver\<close> both stages compile and are attached,
  the link status is \<open>GL_FALSE\<close> and the log has length 5: the constructor throws the
  \<open>LinkError\<close> from inside the status check, before the loop that detaches and deletes
  the handles, so neither handle is ever detached or deleted by the code.
\<close>

theorem link_error_leaves_stages:
  "fst (Shader_ctor link_failing_driver sample_source initial_world)
     = Inl (ShaderE_LinkError ''oops'')
   \<and> List.map_filter attached_handle
       (calls (snd (Shader_ctor link_failing_driver sample_source initial_world))) = [2, 6]
   \<and> List.map_filter detached_handle
       (calls (snd (Shader_ctor link_failing_driver sample_source initial_world))) = []
   \<and> List.map_filter deleted_handle
       (calls (snd (Shader_ctor link_failing_driver sample_source initial_world))) = []"
  unfolding link_failing_run
  by (simp add: List.map_filter_simps)

section \<open>Order of the stages\<close>

lemma expected_steps_slots:
  "expected_steps source [0..<5] =
     concat (map (\<lambda>(i, ty). [Created ty, Sourced (takeWhile (\<lambda>c. c \<noteq> NUL) (sources source i)),
                               Compiled])
       (filter (\<lambda>(i, ty). sources source i \<noteq> [])
          [(0, GL_VERTEX_SHADER), (1, GL_TESS_CONTROL_SHADER), (2, GL_TESS_EVALUATION_SHADER),
           (3, GL_GEOMETRY_SHADER), (4, GL_FRAGMENT_SHADER)]))"
  by (simp add: expected_steps_def slot_steps_def shaderTypes_def upt_5)

lemma other_calls_no_steps:
  "List.map_filter step_of (map (AttachShader p) ids) = []"
  "List.map_filter created_handle (map (AttachShader p) ids) = []"
  "List.map_filter compiled_handle (map (AttachShader p) ids) = []"
  "List.map_filter step_of (release_calls p ids) = []"
  "List.map_filter created_handle (release_calls p ids) = []"
  "List.map_filter compiled_handle (release_calls p ids) = []"
  "List.map_filter step_of (concat (map (uniform_calls p m) zs)) = []"
  "List.map_filter created_handle (concat (map (uniform_calls p m) zs)) = []"
  "List.map_filter compiled_handle (concat (map (uniform_calls p m) zs)) = []"
  "List.map_filter step_of (failed_introspect_calls p n m sz ty) = []"
  "List.map_filter created_handle (failed_introspect_calls p n m sz ty) = []"
  "List.map_filter compiled_handle (failed_introspect_calls p n m sz ty) = []"
  by (rule map_filter_empty;
      auto simp: release_calls_def uniform_calls_def failed_introspect_calls_def
           split: if_splits)+

lemma failed_compile_calls_steps:
  "List.map_filter step_of (CreateShader (shaderTypes ! i) s #
       failed_compile_calls s (sources source i) len lg) = slot_steps source i"
  "List.map_filter created_handle (CreateShader ty s # failed_compile_calls s code len lg) = [s]"
  "List.map_filter compiled_handle (CreateShader ty s # failed_compile_calls s code len lg) = [s]"
  "list_ex compile_failure (failed_compile_calls s code len lg)"
  by (simp_all add: failed_compile_calls_def slot_steps_def List.map_filter_simps)

text \<open>
  C8. The steps the constructor takes on stage objects (create, submit the source,
  compile) are those of the non-empty slots in the order vertex, tessellation control,
  tessellation evaluation, geometry, fragment: always an initial part of that list, and
  the whole list unless a compile-status query reports failure. Nothing is created for
  an empty slot, and the handles compiled are the handles created, in order.
\<close>

theorem stages_in_slot_order:
  assumes run: "Shader_ctor drv source w = (r, w')"
  shows "prefix (List.map_filter step_of (events_since w w'))
           (concat (map (\<lambda>(i, ty). [Created ty,
                                    Sourced (takeWhile (\<lambda>c. c \<noteq> NUL) (sources source i)),
                                    Compiled])
              (filter (\<lambda>(i, ty). sources source i \<noteq> [])
                 [(0, GL_VERTEX_SHADER), (1, GL_TESS_CONTROL_SHADER),
                  (2, GL_TESS_EVALUATION_SHADER), (3, GL_GEOMETRY_SHADER),
                  (4, GL_FRAGMENT_SHADER)])))
       \<and> List.map_filter compiled_handle (events_since w w')
           = List.map_filter created_handle (events_since w w')
       \<and> (\<not> list_ex compile_failure (events_since w w') \<longrightarrow>
            List.map_filter step_of (events_since w w') =
              concat (map (\<lambda>(i, ty). [Created ty,
                                       Sourced (takeWhile (\<lambda>c. c \<noteq> NUL) (sources source i)),
                                       Compiled])
                 (filter (\<lambda>(i, ty). sources source i \<noteq> [])
                    [(0, GL_VERTEX_SHADER), (1, GL_TESS_CONTROL_SHADER),
                     (2, GL_TESS_EVALUATION_SHADER), (3, GL_GEOMETRY_SHADER),
                     (4, GL_FRAGMENT_SHADER)])))"
  using run
proof (cases rule: Shader_ctor_cases)
  case (compile_abort p pre i s len lg)
  have steps: "List.map_filter step_of (events_since w w')
                 = List.map_filter step_of pre @ slot_steps source i"
    unfolding compile_abort(9)
    using failed_compile_calls_steps(1)[of i s source len lg]
    by (simp add: map_filter_append List.map_filter_simps)
  have handles: "List.map_filter compiled_handle (events_since w w')
                   = List.map_filter created_handle (events_since w w')"
    unfolding compile_abort(9)
    using failed_compile_calls_steps(2,3)[of "shaderTypes ! i" s "sources source i" len lg]
    by (simp add: map_filter_append List.map_filter_simps compile_abort(7))
  have "list_ex compile_failure (events_since w w')"
    unfolding compile_abort(9) using failed_compile_calls_steps(4)[of s "sources source i" len lg]
    by simp
  with steps handles compile_abort(6) show ?thesis
    unfolding expected_steps_slots[symmetric] by simp
next
  case (link_abort p evs len lg)
  show ?thesis
    unfolding expected_steps_slots[symmetric] link_abort(8)
    by (simp add: map_filter_append List.map_filter_simps other_calls_no_steps link_abort(4,5))
next
  case (introspect_abort p evs st len n m sz ty)
  show ?thesis
    unfolding expected_steps_slots[symmetric] introspect_abort(9)
    by (simp add: map_filter_append List.map_filter_simps other_calls_no_steps
        introspect_abort(4,5))
next
  case (returned p evs st len sh n m rs)
  show ?thesis
    unfolding expected_steps_slots[symmetric] returned(12)
    by (simp add: map_filter_append List.map_filter_simps other_calls_no_steps returned(4,5))
qed

theorem stages_in_slot_order_witness:
  "\<not> list_ex compile_failure
       (events_since initial_world (snd (Shader_ctor sample_driver sample_source initial_world)))
   \<and> List.map_filter step_of
       (events_since initial_world (snd (Shader_ctor sample_driver sample_source initial_world)))
     = [Created GL_VERTEX_SHADER, Sourced ''v'', Compiled,
        Created GL_FRAGMENT_SHADER, Sourced ''f'', Compiled]"
proof -
  have run: "Shader_ctor sample_driver sample_source initial_world =
      (fst (Shader_ctor sample_driver sample_source initial_world),
       snd (Shader_ctor sample_driver sample_source initial_world))"
    by simp
  have quiet: "\<not> list_ex compile_failure
       (events_since initial_world (snd (Shader_ctor sample_driver sample_source initial_world)))"
    unfolding sample_run by (simp add: events_since_def initial_world_def GL_FALSE_def)
  from stages_in_slot_order[OF run] quiet
  have "List.map_filter step_of
       (events_since initial_world (snd (Shader_ctor sample_driver sample_source initial_world)))
     = concat (map (\<lambda>(i, ty). [Created ty,
                                Sourced (takeWhile (\<lambda>c. c \<noteq> NUL) (sources sample_source i)),
                                Compiled])
          (filter (\<lambda>(i, ty). sources sample_source i \<noteq> [])
             [(0, GL_VERTEX_SHADER), (1, GL_TESS_CONTROL_SHADER),
              (2, GL_TESS_EVALUATION_SHADER), (3, GL_GEOMETRY_SHADER),
              (4, GL_FRAGMENT_SHADER)]))"
    by blast
  also have "\<dots> = [Created GL_VERTEX_SHADER, Sourced ''v'', Compiled,
        Created GL_FRAGMENT_SHADER, Sourced ''f'', Compiled]"
    by (simp add: sample_source_def NUL_def)
  finally show ?thesis using quiet by simp
qed

section \<open>The uniform table\<close>

text \<open>
  C7 does not hold as stated: \<open>initUniforms\<close> has error paths. The name buffer is
  allocated with \<open>new GLchar[maxLength]\<close> from the answer to the maximum-name-length
  query; on a driver that answers -1 the allocation throws and no uniform is fetched.
\<close>

theorem initUniforms_negative_length_throws:
  "fst (initUniforms negative_length_driver (share sample_shader) initial_world) = Inl AllocationFailure
   \<and> \<not> (\<exists>sh'. fst (initUniforms negative_length_driver (share sample_shader) initial_world) = Inr sh')
   \<and> calls (snd (initUniforms negative_length_driver (share sample_shader) initial_world))
       = [GetProgramiv 7 GL_ACTIVE_UNIFORMS 2, GetProgramiv 7 GL_ACTIVE_UNIFORM_MAX_LENGTH (- 1)]"
  unfolding initUniforms_negative_run by simp

text \<open>
  C7, amended. \<open>initUniforms\<close> asks for the number \<open>n\<close> of active uniforms and the
  maximum name length \<open>m\<close>, and what follows depends on the two answers only.

  \<^item> If \<open>m\<close> is negative, the allocation of the name buffer fails: there is no further
    call and no table.
  \<^item> If \<open>m\<close> is 0 and \<open>n\<close> is at least 1, the first fetch stores nothing in the empty
    buffer and the name is then read outside it.
  \<^item> In every other case the function returns the table. For each index from 0 up to
    \<open>n - 1\<close> it fetches name, array size and type tag by index, with the buffer of \<open>m\<close>
    characters, and the location by the name read back from the buffer. The entries are
    stored under these names, a later index overwriting an earlier one of the same name.
    Started on an empty table with pairwise distinct names it leaves exactly \<open>n\<close> entries.
\<close>

theorem initUniforms_table:
  assumes run: "initUniforms drv sh w = (r, w')"
  shows "\<exists>n m. prefix [GetProgramiv (program sh) GL_ACTIVE_UNIFORMS n,
                       GetProgramiv (program sh) GL_ACTIVE_UNIFORM_MAX_LENGTH m]
                      (events_since w w')
       \<and> (sint m < 0 \<longrightarrow>
            r = Inl AllocationFailure \<and>
            events_since w w' =
              [GetProgramiv (program sh) GL_ACTIVE_UNIFORMS n,
               GetProgramiv (program sh) GL_ACTIVE_UNIFORM_MAX_LENGTH m])
       \<and> (sint m = 0 \<and> 1 \<le> sint n \<longrightarrow>
            r = Inl BufferOverrun \<and>
            (\<exists>sz ty. events_since w w' =
               [GetProgramiv (program sh) GL_ACTIVE_UNIFORMS n,
                GetProgramiv (program sh) GL_ACTIVE_UNIFORM_MAX_LENGTH m,
                GetActiveUniform (program sh) 0 m ([], sz, ty)]))
       \<and> (1 \<le> sint m \<or> (sint m = 0 \<and> sint n \<le> 0) \<longrightarrow>
            (\<exists>sh' rs. r = Inr sh' \<and> program sh' = program sh \<and>
               length rs = nat (sint n) \<and>
               events_since w w' =
                 [GetProgramiv (program sh) GL_ACTIVE_UNIFORMS n,
                  GetProgramiv (program sh) GL_ACTIVE_UNIFORM_MAX_LENGTH m] @
                 concat (map (uniform_calls (program sh) m) (zip [0..<nat (sint n)] rs)) \<and>
               List.map_filter located_name (events_since w w')
                 = map (\<lambda>r. name_read (fst r)) rs \<and>
               uniforms sh' = uniforms sh ++ map_of (rev (map uniform_entry rs)) \<and>
               (uniforms sh = Map.empty \<and>
                distinct (List.map_filter located_name (events_since w w'))
                  \<longrightarrow> card (dom (uniforms sh')) = nat (sint n))))"
proof -
  from initUniforms_run[OF run] obtain n m where
    nm: "if 1 \<le> sint m \<or> (0 \<le> sint m \<and> sint n \<le> 0)
         then \<exists>rs. length rs = nat (sint n) \<and>
                calls w' = calls w @
                  [GetProgramiv (program sh) GL_ACTIVE_UNIFORMS n,
                   GetProgramiv (program sh) GL_ACTIVE_UNIFORM_MAX_LENGTH m] @
                  concat (map (uniform_calls (program sh) m) (zip [0..<nat (sint n)] rs)) \<and>
                r = Inr (sh\<lparr>uniforms := uniforms sh ++ map_of (rev (map uniform_entry rs))\<rparr>)
         else \<exists>sz ty. calls w' = calls w @ failed_introspect_calls (program sh) n m sz ty \<and>
                r = Inl (failed_introspect_abort m)"
    by blast
  let ?two = "[GetProgramiv (program sh) GL_ACTIVE_UNIFORMS n,
               GetProgramiv (program sh) GL_ACTIVE_UNIFORM_MAX_LENGTH m]"
  have table: "\<exists>sh' rs. r = Inr sh' \<and> program sh' = program sh \<and>
               length rs = nat (sint n) \<and>
               events_since w w' =
                 ?two @ concat (map (uniform_calls (program sh) m) (zip [0..<nat (sint n)] rs)) \<and>
               List.map_filter located_name (events_since w w')
                 = map (\<lambda>r. name_read (fst r)) rs \<and>
               uniforms sh' = uniforms sh ++ map_of (rev (map uniform_entry rs)) \<and>
               (uniforms sh = Map.empty \<and>
                distinct (List.map_filter located_name (events_since w w'))
                  \<longrightarrow> card (dom (uniforms sh')) = nat (sint n))"
    if ok: "1 \<le> sint m \<or> (sint m = 0 \<and> sint n \<le> 0)"
  proof -
    from ok have "1 \<le> sint m \<or> (0 \<le> sint m \<and> sint n \<le> 0)" by auto
    with nm obtain rs where
      rs: "length rs = nat (sint n)"
          "calls w' = calls w @ ?two @
             concat (map (uniform_calls (program sh) m) (zip [0..<nat (sint n)] rs))"
          "r = Inr (sh\<lparr>uniforms := uniforms sh ++ map_of (rev (map uniform_entry rs))\<rparr>)"
      by auto
    let ?sh' = "sh\<lparr>uniforms := uniforms sh ++ map_of (rev (map uniform_entry rs))\<rparr>"
    have ev: "events_since w w' =
                ?two @ concat (map (uniform_calls (program sh) m) (zip [0..<nat (sint n)] rs))"
      by (rule events_since_append) (rule rs)
    have names: "List.map_filter located_name (events_since w w')
                   = map (\<lambda>r. name_read (fst r)) rs"
      unfolding ev
      using located_names_uniform_calls[of rs "[0..<nat (sint n)]" "program sh" m] rs(1)
      by (simp add: map_filter_append List.map_filter_simps)
    have keys: "map fst (map uniform_entry rs) = map (\<lambda>r. name_read (fst r)) rs"
      by (simp add: uniform_entry_def case_prod_beta)
    have card: "card (dom (uniforms ?sh')) = nat (sint n)"
      if "uniforms sh = Map.empty" "distinct (List.map_filter located_name (events_since w w'))"
    proof -
      have "dom (uniforms ?sh') = set (map fst (map uniform_entry rs))"
        using that(1) by (simp add: dom_map_of_conv_image_fst image_image)
      then have "dom (uniforms ?sh') = set (map (\<lambda>r. name_read (fst r)) rs)"
        unfolding keys .
      moreover have "distinct (map (\<lambda>r. name_read (fst r)) rs)"
        using that(2) unfolding names .
      then have "card (set (map (\<lambda>r. name_read (fst r)) rs))
                   = length (map (\<lambda>r. name_read (fst r)) rs)"
        by (rule distinct_card)
      ultimately show ?thesis by (simp add: rs(1))
    qed
    show ?thesis
      by (rule exI[of _ ?sh'], rule exI[of _ rs])
         (use rs(1,3) ev names card in simp)
  qed
  have neg: "r = Inl AllocationFailure \<and> events_since w w' = ?two" if "sint m < 0"
  proof -
    from that nm obtain sz ty where
      f: "calls w' = calls w @ failed_introspect_calls (program sh) n m sz ty"
         "r = Inl (failed_introspect_abort m)"
      by auto
    from events_since_append[OF f(1)] f(2) that show ?thesis
      by (simp add: failed_introspect_calls_def failed_introspect_abort_def)
  qed
  have zero: "r = Inl BufferOverrun \<and>
            (\<exists>sz ty. events_since w w' =
               [GetProgramiv (program sh) GL_ACTIVE_UNIFORMS n,
                GetProgramiv (program sh) GL_ACTIVE_UNIFORM_MAX_LENGTH m,
                GetActiveUniform (program sh) 0 m ([], sz, ty)])"
    if "sint m = 0 \<and> 1 \<le> sint n"
  proof -
    from that nm obtain sz ty where
      f: "calls w' = calls w @ failed_introspect_calls (program sh) n m sz ty"
         "r = Inl (failed_introspect_abort m)"
      by auto
    from events_since_append[OF f(1)] f(2) that show ?thesis
      by (simp add: failed_introspect_calls_def failed_introspect_abort_def)
  qed
  have start: "prefix ?two (events_since w w')"
  proof (cases "1 \<le> sint m \<or> (0 \<le> sint m \<and> sint n \<le> 0)")
    case True
    with nm obtain rs where
      "calls w' = calls w @ ?two @
             concat (map (uniform_calls (program sh) m) (zip [0..<nat (sint n)] rs))"
      by auto
    from events_since_append[OF this] show ?thesis by simp
  next
    case False
    with nm obtain sz ty where
      "calls w' = calls w @ failed_introspect_calls (program sh) n m sz ty"
      by auto
    from events_since_append[OF this] show ?thesis
      by (simp add: failed_introspect_calls_def)
  qed
  show ?thesis
    by (rule exI[of _ n], rule exI[of _ m]) (use start neg zero table in blast)
qed

theorem initUniforms_table_witness:
  "uniforms (share sample_shader) = Map.empty
   \<and> distinct (List.map_filter located_name
        (events_since initial_world (snd (initUniforms sample_driver (share sample_shader) initial_world))))
   \<and> (\<exists>sh'. fst (initUniforms sample_driver (share sample_shader) initial_world) = Inr sh' \<and> program sh' = 7 \<and> card (dom (uniforms sh')) = 2)
   \<and> fst (initUniforms zero_length_driver (share sample_shader) initial_world) = Inl BufferOverrun"
proof -
  note pnames = GL_ACTIVE_UNIFORMS_def GL_ACTIVE_UNIFORM_MAX_LENGTH_def
  let ?evs = "events_since initial_world (snd (initUniforms sample_driver (share sample_shader) initial_world))"
  have evs: "?evs =
      [GetProgramiv 7 GL_ACTIVE_UNIFORMS 2, GetProgramiv 7 GL_ACTIVE_UNIFORM_MAX_LENGTH 8,
       GetActiveUniform 7 0 8 (''u_color'' @ [NUL], 1, 0x8B52), GetUniformLocation 7 ''u_color'' 0,
       GetActiveUniform 7 1 8 (''u_mvp'' @ [NUL], 1, 0x8B5C), GetUniformLocation 7 ''u_mvp'' 1]"
    unfolding initUniforms_sample_run by (simp add: events_since_def initial_world_def)
  have p: "program (share sample_shader) = 7" by (simp add: sample_shader_def)
  have run: "initUniforms sample_driver (share sample_shader) initial_world = (fst (initUniforms sample_driver (share sample_shader) initial_world), snd (initUniforms sample_driver (share sample_shader) initial_world))"
    by simp
  have empty: "uniforms (share sample_shader) = Map.empty"
    by (simp add: sample_shader_def)
  have dist: "distinct (List.map_filter located_name ?evs)"
    unfolding evs by (simp add: List.map_filter_simps)
  from initUniforms_table[OF run, unfolded p] obtain n m where
    start: "prefix [GetProgramiv 7 GL_ACTIVE_UNIFORMS n,
                    GetProgramiv 7 GL_ACTIVE_UNIFORM_MAX_LENGTH m] ?evs"
    and table: "1 \<le> sint m \<or> (sint m = 0 \<and> sint n \<le> 0) \<longrightarrow>
            (\<exists>sh' rs. fst (initUniforms sample_driver (share sample_shader) initial_world) = Inr sh' \<and> program sh' = 7 \<and>
               length rs = nat (sint n) \<and>
               ?evs =
                 [GetProgramiv 7 GL_ACTIVE_UNIFORMS n,
                  GetProgramiv 7 GL_ACTIVE_UNIFORM_MAX_LENGTH m] @
                 concat (map (uniform_calls 7 m) (zip [0..<nat (sint n)] rs)) \<and>
               List.map_filter located_name ?evs = map (\<lambda>r. name_read (fst r)) rs \<and>
               uniforms sh' = uniforms (share sample_shader) ++ map_of (rev (map uniform_entry rs)) \<and>
               (uniforms (share sample_shader) = Map.empty \<and>
                distinct (List.map_filter located_name ?evs)
                  \<longrightarrow> card (dom (uniforms sh')) = nat (sint n)))"
    by blast
  from start have nm: "n = 2" "m = 8" unfolding evs by simp_all
  with table empty dist
  have ret: "\<exists>sh'. fst (initUniforms sample_driver (share sample_shader) initial_world) = Inr sh' \<and> program sh' = 7 \<and> card (dom (uniforms sh')) = 2"
    by auto
  let ?evz = "events_since initial_world (snd (initUniforms zero_length_driver (share sample_shader) initial_world))"
  have evz: "?evz =
      [GetProgramiv 7 GL_ACTIVE_UNIFORMS 2, GetProgramiv 7 GL_ACTIVE_UNIFORM_MAX_LENGTH 0,
       GetActiveUniform 7 0 0 ([], 1, 0x8B52)]"
    unfolding initUniforms_zero_run by (simp add: events_since_def initial_world_def)
  have runz: "initUniforms zero_length_driver (share sample_shader) initial_world = (fst (initUniforms zero_length_driver (share sample_shader) initial_world), snd (initUniforms zero_length_driver (share sample_shader) initial_world))"
    by simp
  from initUniforms_table[OF runz, unfolded p] obtain nz mz where
    startz: "prefix [GetProgramiv 7 GL_ACTIVE_UNIFORMS nz,
                     GetProgramiv 7 GL_ACTIVE_UNIFORM_MAX_LENGTH mz] ?evz"
    and overrun: "sint mz = 0 \<and> 1 \<le> sint nz \<longrightarrow> fst (initUniforms zero_length_driver (share sample_shader) initial_world) = Inl BufferOverrun"
    by blast
  from startz have "nz = 2" "mz = 0" unfolding evz by simp_all
  with overrun have z: "fst (initUniforms zero_length_driver (share sample_shader) initial_world) = Inl BufferOverrun" by simp
  from empty dist ret z show ?thesis by (intro conjI)
qed
section \<open>Binding and uniform lookup\<close>

text \<open>
  C4. \<open>isBound\<close> is true exactly when the shader's program identifier equals the calling
  thread's \<open>boundProgram\<close>, and after \<open>bind\<close> on a thread \<open>isBound\<close> on that thread is true.
\<close>

theorem isBound_iff_and_after_bind:
  "isBound t this w = (boundProgram w t = program (share this))
   \<and> isBound t this (bind t this w)"
  by (simp add: isBound_def bind_def glUseProgram_def Let_def)

text \<open>
  C5. If the shader's program is already the calling thread's bound program, \<open>bind\<close>
  changes nothing: no call is made and \<open>boundProgram\<close> stays as it is. Hence a second
  \<open>bind\<close> in a row leaves the state of the first.
\<close>

theorem bind_idempotent:
  "(isBound t this w \<longrightarrow> bind t this w = w)
   \<and> bind t this (bind t this w) = bind t this w"
  by (simp add: isBound_def bind_def glUseProgram_def Let_def)

theorem bind_idempotent_witness:
  "isBound 0 sample_shader (bind 0 sample_shader initial_world)
   \<and> bind 0 sample_shader (bind 0 sample_shader initial_world) = bind 0 sample_shader initial_world
   \<and> calls (bind 0 sample_shader (bind 0 sample_shader initial_world)) = [UseProgram 7]"
proof -
  have bound: "isBound 0 sample_shader (bind 0 sample_shader initial_world)"
    by (simp add: isBound_def bind_def glUseProgram_def Let_def)
  have once: "calls (bind 0 sample_shader initial_world) = [UseProgram 7]"
    by (simp add: isBound_def bind_def glUseProgram_def Let_def sample_shader_def
        initial_world_def)
  from bind_idempotent[of 0 sample_shader "bind 0 sample_shader initial_world"] bound
  have "bind 0 sample_shader (bind 0 sample_shader initial_world)
          = bind 0 sample_shader initial_world"
    by blast
  with bound once show ?thesis by simp
qed

text \<open>
  C9. \<open>bind\<close> on thread \<open>t1\<close> leaves the \<open>boundProgram\<close> slot of every other thread
  \<open>t2\<close> as it was, and with it every \<open>isBound\<close> answer on \<open>t2\<close>.
\<close>

theorem bind_leaves_other_threads:
  "t1 \<noteq> t2 \<Longrightarrow>
     boundProgram (bind t1 this w) t2 = boundProgram w t2
     \<and> isBound t2 other (bind t1 this w) = isBound t2 other w"
  by (simp add: isBound_def bind_def glUseProgram_def Let_def)

theorem bind_leaves_other_threads_witness:
  "(0 :: thread) \<noteq> 1
   \<and> boundProgram (bind 0 sample_shader initial_world) 1 = boundProgram initial_world 1
   \<and> isBound 1 sample_shader (bind 0 sample_shader initial_world)
       = isBound 1 sample_shader initial_world
   \<and> isBound 0 sample_shader (bind 0 sample_shader initial_world)
   \<and> \<not> isBound 1 sample_shader (bind 0 sample_shader initial_world)"
proof -
  have ne: "(0 :: thread) \<noteq> 1" by simp
  have here: "isBound 0 sample_shader (bind 0 sample_shader initial_world)"
    by (simp add: isBound_def bind_def glUseProgram_def Let_def)
  have there: "\<not> isBound 1 sample_shader initial_world"
    by (simp add: isBound_def sample_shader_def initial_world_def)
  from bind_leaves_other_threads[OF ne, of sample_shader initial_world sample_shader] ne here there
  show ?thesis by simp
qed

text \<open>
  C6. \<open>uniform\<close> looks the name up in the table of the shared program. The reference it
  returns points back to the shader; its entry is the table's entry for the name, absent
  exactly when the name is not in the table. The function returns a reference for every
  name: there is no error outcome.
\<close>

theorem uniform_lookup:
  "shader (uniform this name) = Some this
   \<and> data (uniform this name) = uniforms (share this) name
   \<and> (data (uniform this name) = None) = (name \<notin> dom (uniforms (share this)))"
  by (cases "uniforms (share this) name") (auto simp: uniform_def Uniform_ctor_def)

text \<open>On the shader built by the sample run a known uniform is found and an unknown one is not.\<close>

lemma sample_uniform_lookup:
  assumes "Shader_ctor sample_driver sample_source initial_world = (Inr sh, w')"
  shows "data (uniform sh ''u_color'') = Some \<lparr>size = 1, type = 0x8B52, location = 0\<rparr>"
    and "data (uniform sh ''does_not_exist'') = None"
  using assms unfolding sample_run
  by (auto simp: uniform_def Uniform_ctor_def)


end
